theory Spec2Isabelle
  imports Complex_Main "HOL-Library.Sublist" "HOL-Library.Log_Nat"
begin

section \<open>Strings\<close>

text \<open>
  A JavaScript string is modelled by its UTF-8 encoding, a \<^typ>\<open>string\<close> whose characters are
  the bytes. Every needle the program searches for (\<open>cart\<close>, \<open>/cart\<close>, \<open>icon\<close>, \<open>fa-\<close>,
  \<open>non-scaling-stroke\<close>) and the comma are ASCII, and the bytes of a character that is not ASCII
  are all above the ASCII range, so the search on the bytes agrees with the search on UTF-16
  code units.
\<close>

definition upper_letters :: string where
  "upper_letters = ''ABCDEFGHIJKLMNOPQRSTUVWXYZ''"

definition lower_letters :: string where
  "lower_letters = ''abcdefghijklmnopqrstuvwxyz''"

text \<open>\<open>String.prototype.toLowerCase\<close> on the ASCII letters; other characters are kept. The
  program only asks whether the result contains \<open>cart\<close>, and no character outside ASCII has
  one of the letters c, a, r, t in its lower-case form.\<close>

definition lower_char :: "char \<Rightarrow> char" where
  "lower_char c = (case map_of (zip upper_letters lower_letters) c of Some d \<Rightarrow> d | None \<Rightarrow> c)"

definition toLowerCase :: "string \<Rightarrow> string" where
  "toLowerCase s = map lower_char s"

definition upper_char :: "char \<Rightarrow> char" where
  "upper_char c = (case map_of (zip lower_letters upper_letters) c of Some d \<Rightarrow> d | None \<Rightarrow> c)"

definition toUpperCase :: "string \<Rightarrow> string" where
  "toUpperCase s = map upper_char s"

fun startsWith :: "string \<Rightarrow> string \<Rightarrow> bool" where
  "startsWith s [] = True"
| "startsWith [] (d # ds) = False"
| "startsWith (c # cs) (d # ds) = (c = d \<and> startsWith cs ds)"

text \<open>\<open>s.includes(sub)\<close>, also \<open>s.indexOf(sub) !== -1\<close> and the attribute selector \<open>[a*="sub"]\<close>
  for a non-empty \<open>sub\<close>.\<close>

fun str_includes :: "string \<Rightarrow> string \<Rightarrow> bool" where
  "str_includes [] sub = (sub = [])"
| "str_includes (c # cs) sub = (startsWith (c # cs) sub \<or> str_includes cs sub)"

text \<open>ASCII whitespace of the DOM standard (the separators of a class attribute): tab, line
  feed, form feed, carriage return, space.\<close>

definition ascii_ws :: "char \<Rightarrow> bool" where
  "ascii_ws c = (c \<in> {CHR 0x09, CHR 0x0A, CHR 0x0C, CHR 0x0D, CHR '' ''})"

text \<open>The characters of the regular-expression class \<open>\s\<close>, which are also the ones \<open>trim()\<close>
  removes, each in UTF-8: U+0009 to U+000D, U+0020, U+00A0, U+1680, U+2000 to U+200A, U+2028,
  U+2029, U+202F, U+205F, U+3000 and U+FEFF.\<close>

definition WhiteSpace :: "string list" where
  "WhiteSpace =
     [[CHR 0x09], [CHR 0x0A], [CHR 0x0B], [CHR 0x0C], [CHR 0x0D], [CHR 0x20],
      [CHR 0xC2, CHR 0xA0], [CHR 0xE1, CHR 0x9A, CHR 0x80],
      [CHR 0xE2, CHR 0x80, CHR 0x80], [CHR 0xE2, CHR 0x80, CHR 0x81],
      [CHR 0xE2, CHR 0x80, CHR 0x82], [CHR 0xE2, CHR 0x80, CHR 0x83],
      [CHR 0xE2, CHR 0x80, CHR 0x84], [CHR 0xE2, CHR 0x80, CHR 0x85],
      [CHR 0xE2, CHR 0x80, CHR 0x86], [CHR 0xE2, CHR 0x80, CHR 0x87],
      [CHR 0xE2, CHR 0x80, CHR 0x88], [CHR 0xE2, CHR 0x80, CHR 0x89],
      [CHR 0xE2, CHR 0x80, CHR 0x8A], [CHR 0xE2, CHR 0x80, CHR 0xA8],
      [CHR 0xE2, CHR 0x80, CHR 0xA9], [CHR 0xE2, CHR 0x80, CHR 0xAF],
      [CHR 0xE2, CHR 0x81, CHR 0x9F], [CHR 0xE3, CHR 0x80, CHR 0x80],
      [CHR 0xEF, CHR 0xBB, CHR 0xBF]]"

text \<open>The number of bytes of the white space character a string starts with, zero when it
  starts with none; the same for a string that is read backwards.\<close>

definition white_space_at :: "string \<Rightarrow> nat" where
  "white_space_at s = (case find (startsWith s) WhiteSpace of None \<Rightarrow> 0 | Some w \<Rightarrow> length w)"

definition white_space_before :: "string \<Rightarrow> nat" where
  "white_space_before r =
     (case find (\<lambda>w. startsWith r (rev w)) WhiteSpace of None \<Rightarrow> 0 | Some w \<Rightarrow> length w)"

text \<open>The string without the characters at its start that \<open>f\<close> measures.\<close>

function strip :: "(string \<Rightarrow> nat) \<Rightarrow> string \<Rightarrow> string" where
  "strip f [] = []"
| "strip f (c # cs) = (if 0 < f (c # cs) then strip f (drop (f (c # cs)) (c # cs)) else c # cs)"
  by pat_completeness auto
termination
  by (relation "measure (\<lambda>(f, s). length s)") auto

definition trim :: "string \<Rightarrow> string" where
  "trim s = rev (strip white_space_before (rev (strip white_space_at s)))"

text \<open>Splitting a string on ASCII whitespace, dropping empty pieces: \<open>cur\<close> is the token
  being read, reversed.\<close>

fun split_ws :: "string \<Rightarrow> string \<Rightarrow> string list" where
  "split_ws cur [] = (if cur = [] then [] else [rev cur])"
| "split_ws cur (c # cs) =
     (if ascii_ws c then (if cur = [] then split_ws [] cs else rev cur # split_ws [] cs)
      else split_ws (c # cur) cs)"

text \<open>The ordered set of a token list: the first occurrence of each token is kept.\<close>

fun ordered_set :: "string list \<Rightarrow> string list \<Rightarrow> string list" where
  "ordered_set seen [] = []"
| "ordered_set seen (t # ts) =
     (if t \<in> set seen then ordered_set seen ts else t # ordered_set (t # seen) ts)"

fun join_sp :: "string list \<Rightarrow> string" where
  "join_sp [] = []"
| "join_sp [t] = t"
| "join_sp (t # u # ts) = t @ '' '' @ join_sp (u # ts)"

text \<open>\<open>vb.split(/\s+|,/)\<close>: the string is cut at every run of white space and at every single
  comma; empty pieces are kept, and a string without separator is one piece. \<open>cur\<close> is the
  piece being read, reversed; \<open>run\<close> tells that the last character read was white space, so that
  more white space belongs to the same separator.\<close>

function split_viewBox :: "bool \<Rightarrow> string \<Rightarrow> string \<Rightarrow> string list" where
  "split_viewBox run cur [] = [rev cur]"
| "split_viewBox run cur (c # cs) =
     (if 0 < white_space_at (c # cs) then
        (if run then split_viewBox True [] (drop (white_space_at (c # cs)) (c # cs))
         else rev cur # split_viewBox True [] (drop (white_space_at (c # cs)) (c # cs)))
      else if c = CHR '','' then rev cur # split_viewBox False [] cs
      else split_viewBox False (c # cur) cs)"
  by pat_completeness auto
termination
  by (relation "measure (\<lambda>(run, cur, s). length s)") auto

section \<open>Numbers\<close>

text \<open>
  A JavaScript number is a binary64 value of IEEE 754: a finite value, an infinity or NaN. A
  finite value is modelled as the rational it denotes, and an arithmetic operation rounds its
  exact result to the nearest binary64 value, a tie to the even significand; a result whose
  rounded magnitude reaches \<open>2 ^ 1024\<close> is an infinity. The operations follow ECMAScript on the
  special values. The sign of zero is not modelled: the program prints a zero of either sign the
  same way, and its divisors (a rendered size that is not zero, the sum of such a size and a
  stroke width, a power of ten, the number 2) are never the negative zero.
\<close>

datatype jsnum = Num rat | PInf | NInf | NaN

definition signed_inf :: "bool \<Rightarrow> jsnum" where
  "signed_inf pos = (if pos then PInf else NInf)"

text \<open>The integer nearest to a rational, a tie to the even one.\<close>

definition round_half_even :: "rat \<Rightarrow> int" where
  "round_half_even y =
     (let f = \<lfloor>y\<rfloor>; r = y - of_int f
      in if r < 1 / 2 then f else if 1 / 2 < r then f + 1 else if even f then f else f + 1)"

text \<open>The binary exponent of a positive rational \<open>a\<close>: the \<open>e\<close> with
  \<open>2 ^ e \<le> a < 2 ^ (e + 1)\<close>.\<close>

definition binary_exponent :: "rat \<Rightarrow> int" where
  "binary_exponent a = (if 1 \<le> a then bitlen \<lfloor>a\<rfloor> - 1 else - bitlen (\<lceil>1 / a\<rceil> - 1))"

text \<open>The rounding of a rational to binary64. A value of exponent \<open>e\<close> is rounded to a multiple
  of \<open>2 ^ q\<close> with \<open>q = e - 52\<close>, so that the significand has 53 bits, and \<open>q = - 1074\<close> for
  the subnormal values. The multiple \<open>n * 2 ^ q\<close> reaches \<open>2 ^ 1024\<close> when \<open>q\<close> is above 971, or is
  971 with \<open>n = 2 ^ 53\<close>.\<close>

definition to_double :: "rat \<Rightarrow> jsnum" where
  "to_double x =
     (if x = 0 then Num 0
      else
        (let a = \<bar>x\<bar>;
             q = max (binary_exponent a - 52) (- 1074);
             n = round_half_even (a / 2 powi q)
         in if 971 < q \<or> (q = 971 \<and> 2 ^ 53 \<le> n) then signed_inf (0 < x)
            else Num (if 0 < x then of_int n * 2 powi q else - (of_int n * 2 powi q))))"

fun js_neg :: "jsnum \<Rightarrow> jsnum" where
  "js_neg (Num x) = Num (- x)"
| "js_neg PInf = NInf"
| "js_neg NInf = PInf"
| "js_neg NaN = NaN"

fun js_add :: "jsnum \<Rightarrow> jsnum \<Rightarrow> jsnum" where
  "js_add NaN b = NaN"
| "js_add a NaN = NaN"
| "js_add (Num x) (Num y) = to_double (x + y)"
| "js_add PInf NInf = NaN"
| "js_add NInf PInf = NaN"
| "js_add PInf b = PInf"
| "js_add NInf b = NInf"
| "js_add (Num x) b = b"

definition js_sub :: "jsnum \<Rightarrow> jsnum \<Rightarrow> jsnum" where
  "js_sub a b = js_add a (js_neg b)"

text \<open>The sign of a number that is not NaN; zero counts as positive zero.\<close>

fun nonneg :: "jsnum \<Rightarrow> bool" where
  "nonneg (Num x) = (0 \<le> x)"
| "nonneg PInf = True"
| "nonneg NInf = False"
| "nonneg NaN = True"

fun js_mul :: "jsnum \<Rightarrow> jsnum \<Rightarrow> jsnum" where
  "js_mul NaN b = NaN"
| "js_mul a NaN = NaN"
| "js_mul (Num x) (Num y) = to_double (x * y)"
| "js_mul (Num x) b = (if x = 0 then NaN else signed_inf (nonneg (Num x) = nonneg b))"
| "js_mul a (Num y) = (if y = 0 then NaN else signed_inf (nonneg a = nonneg (Num y)))"
| "js_mul a b = signed_inf (nonneg a = nonneg b)"

fun js_div :: "jsnum \<Rightarrow> jsnum \<Rightarrow> jsnum" where
  "js_div NaN b = NaN"
| "js_div a NaN = NaN"
| "js_div (Num x) (Num y) =
     (if y \<noteq> 0 then to_double (x / y) else if x = 0 then NaN else signed_inf (0 < x))"
| "js_div (Num x) b = Num 0"
| "js_div a (Num y) = signed_inf (nonneg a = nonneg (Num y))"
| "js_div a b = NaN"

text \<open>The order of the numbers that are not NaN.\<close>

fun js_le :: "jsnum \<Rightarrow> jsnum \<Rightarrow> bool" where
  "js_le NaN b = False"
| "js_le a NaN = False"
| "js_le NInf b = True"
| "js_le a PInf = True"
| "js_le (Num x) (Num y) = (x \<le> y)"
| "js_le a b = False"

definition isNaN :: "jsnum \<Rightarrow> bool" where
  "isNaN a = (a = NaN)"

definition Math_max :: "jsnum \<Rightarrow> jsnum \<Rightarrow> jsnum" where
  "Math_max a b = (if isNaN a \<or> isNaN b then NaN else if js_le a b then b else a)"

definition Math_min :: "jsnum \<Rightarrow> jsnum \<Rightarrow> jsnum" where
  "Math_min a b = (if isNaN a \<or> isNaN b then NaN else if js_le a b then a else b)"

text \<open>\<open>Math.round\<close> rounds to the nearest integer, a tie towards positive infinity. The
  result is exact: a binary64 value with a fractional part is below \<open>2 ^ 52\<close> in magnitude, and
  every integer up to \<open>2 ^ 53\<close> is a binary64 value.\<close>

fun Math_round :: "jsnum \<Rightarrow> jsnum" where
  "Math_round (Num x) = Num (of_int \<lfloor>x + 1 / 2\<rfloor>)"
| "Math_round a = a"

fun isFinite :: "jsnum \<Rightarrow> bool" where
  "isFinite (Num x) = True"
| "isFinite a = False"

text \<open>\<open>a > 0\<close>.\<close>

fun positive :: "jsnum \<Rightarrow> bool" where
  "positive (Num x) = (0 < x)"
| "positive PInf = True"
| "positive a = False"

text \<open>The truth value of a number in a condition: everything but zero and NaN.\<close>

fun truthy :: "jsnum \<Rightarrow> bool" where
  "truthy (Num x) = (x \<noteq> 0)"
| "truthy NaN = False"
| "truthy a = True"

section \<open>The document tree\<close>

text \<open>
  The document is a tree of nodes. An element carries its namespace (HTML or not, the other
  case being SVG), its local name, its attributes in order, the cursor last assigned through
  \<open>el.style.cursor\<close>, the handler last assigned to \<open>el.onclick\<close>, and its child nodes. An
  element of the document is addressed by the indices of the children on the way from the root.
\<close>

type_synonym path = "nat list"

text \<open>The click handler the injector attaches: it prevents the default action, stops the
  propagation of the event and navigates to the given address.\<close>

datatype handler = NavigateTo string

datatype node =
    Text string
  | Element bool string "(string \<times> string) list" "string option" "handler option" "node list"

fun isHTML :: "node \<Rightarrow> bool" where
  "isHTML (Text t) = False"
| "isHTML (Element h n a c k ch) = h"

fun localName :: "node \<Rightarrow> string" where
  "localName (Text t) = []"
| "localName (Element h n a c k ch) = n"

fun attributes :: "node \<Rightarrow> (string \<times> string) list" where
  "attributes (Text t) = []"
| "attributes (Element h n a c k ch) = a"

fun childNodes :: "node \<Rightarrow> node list" where
  "childNodes (Text t) = []"
| "childNodes (Element h n a c k ch) = ch"

fun style_cursor :: "node \<Rightarrow> string option" where
  "style_cursor (Text t) = None"
| "style_cursor (Element h n a c k ch) = c"

fun onclick :: "node \<Rightarrow> handler option" where
  "onclick (Text t) = None"
| "onclick (Element h n a c k ch) = k"

text \<open>\<open>tagName\<close> is the upper-cased name for an HTML element and the name as it is otherwise.\<close>

definition tagName :: "node \<Rightarrow> string" where
  "tagName e = (if isHTML e then toUpperCase (localName e) else localName e)"

definition getAttribute :: "string \<Rightarrow> node \<Rightarrow> string option" where
  "getAttribute a e = map_of (attributes e) a"

fun set_attr :: "string \<Rightarrow> string \<Rightarrow> (string \<times> string) list \<Rightarrow> (string \<times> string) list" where
  "set_attr a v [] = [(a, v)]"
| "set_attr a v ((b, w) # as) = (if b = a then (a, v) # as else (b, w) # set_attr a v as)"

fun setAttribute :: "string \<Rightarrow> string \<Rightarrow> node \<Rightarrow> node" where
  "setAttribute a v (Text t) = Text t"
| "setAttribute a v (Element h n as c k ch) = Element h n (set_attr a v as) c k ch"

fun removeAttribute :: "string \<Rightarrow> node \<Rightarrow> node" where
  "removeAttribute a (Text t) = Text t"
| "removeAttribute a (Element h n as c k ch) = Element h n (filter (\<lambda>(b, w). b \<noteq> a) as) c k ch"

text \<open>The conversion of an attribute read (a string or \<open>null\<close>) to the string that
  \<open>setAttribute\<close> stores.\<close>

fun DOMString :: "string option \<Rightarrow> string" where
  "DOMString None = ''null''"
| "DOMString (Some v) = v"

fun set_style_cursor :: "string \<Rightarrow> node \<Rightarrow> node" where
  "set_style_cursor v (Text t) = Text t"
| "set_style_cursor v (Element h n as c k ch) = Element h n as (Some v) k ch"

fun set_onclick :: "handler \<Rightarrow> node \<Rightarrow> node" where
  "set_onclick f (Text t) = Text t"
| "set_onclick f (Element h n as c k ch) = Element h n as c (Some f) ch"

fun appendChild :: "node \<Rightarrow> node \<Rightarrow> node" where
  "appendChild x (Text t) = Text t"
| "appendChild x (Element h n as c k ch) = Element h n as c k (ch @ [x])"

text \<open>\<open>classList\<close>: the ordered set of the tokens of the class attribute.\<close>

definition classList :: "node \<Rightarrow> string list" where
  "classList e = (case getAttribute ''class'' e of None \<Rightarrow> [] | Some v \<Rightarrow> ordered_set [] (split_ws [] v))"

text \<open>\<open>classList.remove(...ts)\<close>: the tokens are removed from the set, and the class attribute
  is written back from the set, unless there is no attribute and the set is empty.\<close>

definition classList_remove :: "string list \<Rightarrow> node \<Rightarrow> node" where
  "classList_remove ts e =
     (let toks = filter (\<lambda>t. t \<notin> set ts) (classList e)
      in if getAttribute ''class'' e = None \<and> toks = [] then e
         else setAttribute ''class'' (join_sp toks) e)"

text \<open>\<open>cloneNode(true)\<close> copies the subtree with its attributes (the inline style among
  them); handlers assigned to \<open>onclick\<close> are not copied.\<close>

fun cloneNode :: "node \<Rightarrow> node" where
  "cloneNode (Text t) = Text t"
| "cloneNode (Element h n as c k ch) = Element h n as c None (map cloneNode ch)"

fun get_at :: "node \<Rightarrow> path \<Rightarrow> node option" where
  "get_at e [] = Some e"
| "get_at (Text t) (i # p) = None"
| "get_at (Element h n as c k ch) (i # p) = (if i < length ch then get_at (ch ! i) p else None)"

fun map_at :: "path \<Rightarrow> (node \<Rightarrow> node) \<Rightarrow> node \<Rightarrow> node" where
  "map_at [] f e = f e"
| "map_at (i # p) f (Text t) = Text t"
| "map_at (i # p) f (Element h n as c k ch) =
     Element h n as c k (if i < length ch then ch[i := map_at p f (ch ! i)] else ch)"

text \<open>The elements of a subtree in tree order, each with its address relative to the root of
  the subtree; the root comes first.\<close>

fun elems :: "node \<Rightarrow> (path \<times> node) list"
  and elems_from :: "nat \<Rightarrow> node list \<Rightarrow> (path \<times> node) list" where
  "elems (Text t) = []"
| "elems (Element h n as c k ch) = ([], Element h n as c k ch) # elems_from 0 ch"
| "elems_from i [] = []"
| "elems_from i (x # xs) = map (\<lambda>(p, e). (i # p, e)) (elems x) @ elems_from (Suc i) xs"

text \<open>\<open>el.querySelector\<close> for a selector that looks at one element only: the first proper
  descendant, in tree order, that matches.\<close>

definition querySelector :: "(node \<Rightarrow> bool) \<Rightarrow> node \<Rightarrow> (path \<times> node) option" where
  "querySelector sel e = find (\<lambda>(p, d). sel d) (tl (elems e))"

text \<open>\<open>el.querySelectorAll(sel).forEach(f)\<close> for such a selector and an \<open>f\<close> that changes the
  attributes of the element it is given: \<open>update_matching\<close> visits an element and its
  descendants, \<open>forEach_descendant\<close> the proper descendants only.\<close>

fun update_matching :: "(node \<Rightarrow> bool) \<Rightarrow> (node \<Rightarrow> node) \<Rightarrow> node \<Rightarrow> node" where
  "update_matching sel f (Text t) = Text t"
| "update_matching sel f (Element h n as c k ch) =
     (if sel (Element h n as c k ch) then f else id)
       (Element h n as c k (map (update_matching sel f) ch))"

fun forEach_descendant :: "(node \<Rightarrow> bool) \<Rightarrow> (node \<Rightarrow> node) \<Rightarrow> node \<Rightarrow> node" where
  "forEach_descendant sel f (Text t) = Text t"
| "forEach_descendant sel f (Element h n as c k ch) =
     Element h n as c k (map (update_matching sel f) ch)"

text \<open>\<open>document.getElementById\<close>: the first element of the document with that id.\<close>

definition getElementById :: "string \<Rightarrow> node \<Rightarrow> (path \<times> node) option" where
  "getElementById i doc = find (\<lambda>(p, d). getAttribute ''id'' d = Some i) (elems doc)"

text \<open>\<open>parent.insertBefore(x, child)\<close> where the child is at index \<open>i\<close> of the element at
  \<open>pp\<close>.\<close>

fun insert_child :: "nat \<Rightarrow> node \<Rightarrow> node \<Rightarrow> node" where
  "insert_child i x (Text t) = Text t"
| "insert_child i x (Element h n as c k ch) = Element h n as c k (take i ch @ x # drop i ch)"

definition insertBefore :: "path \<Rightarrow> nat \<Rightarrow> node \<Rightarrow> node \<Rightarrow> node" where
  "insertBefore pp i x doc = map_at pp (insert_child i x) doc"

text \<open>The addresses of the ancestors of an element, the parent first.\<close>

definition ancestors :: "path \<Rightarrow> path list" where
  "ancestors p = map (\<lambda>j. take j p) (rev [0..<length p])"

subsection \<open>The selectors the program uses\<close>

text \<open>\<open>[id*="cart"]\<close>\<close>

definition sel_id_cart :: "node \<Rightarrow> bool" where
  "sel_id_cart e = (case getAttribute ''id'' e of None \<Rightarrow> False | Some v \<Rightarrow> str_includes v ''cart'')"

text \<open>\<open>[data-cart-status]\<close>\<close>

definition sel_data_cart_status :: "node \<Rightarrow> bool" where
  "sel_data_cart_status e = (getAttribute ''data-cart-status'' e \<noteq> None)"

text \<open>\<open>a[href*="/cart"]\<close>\<close>

definition sel_a_href_cart :: "node \<Rightarrow> bool" where
  "sel_a_href_cart e =
     (localName e = ''a'' \<and>
      (case getAttribute ''href'' e of None \<Rightarrow> False | Some v \<Rightarrow> str_includes v ''/cart''))"

text \<open>\<open>svg, i[class*="icon"], i[class*="fa-"], img\<close>\<close>

definition iconSelector :: "node \<Rightarrow> bool" where
  "iconSelector e =
     (localName e = ''svg'' \<or>
      (localName e = ''i'' \<and>
        (case getAttribute ''class'' e of None \<Rightarrow> False | Some v \<Rightarrow> str_includes v ''icon'')) \<or>
      (localName e = ''i'' \<and>
        (case getAttribute ''class'' e of None \<Rightarrow> False | Some v \<Rightarrow> str_includes v ''fa-'')) \<or>
      localName e = ''img'')"

text \<open>\<open>path\<close> and \<open>svg\<close>\<close>

definition sel_path :: "node \<Rightarrow> bool" where
  "sel_path e = (localName e = ''path'')"

definition sel_svg :: "node \<Rightarrow> bool" where
  "sel_svg e = (localName e = ''svg'')"

section \<open>The environment\<close>

text \<open>
  What the program asks of the JavaScript runtime and of the browser is a parameter of the
  model: the matching of an arbitrary selector string (\<open>None\<close> when the string is not a
  selector and \<open>querySelector\<close> throws), the conversions between strings and numbers, the
  power \<open>Math.pow(10, d)\<close> for an integer \<open>d\<close>, whose accuracy the language leaves to the
  implementation, and the layout of the rendered document.
\<close>

record runtime =
  selector :: "string \<Rightarrow> (node \<Rightarrow> path \<Rightarrow> bool) option"
  Number :: "string \<Rightarrow> jsnum"
  parseFloat :: "string \<Rightarrow> jsnum"
  toString :: "jsnum \<Rightarrow> string"
  pow10 :: "int \<Rightarrow> jsnum"

record DOMRect =
  rect_x :: jsnum
  rect_y :: jsnum
  width :: jsnum
  height :: jsnum

text \<open>The two properties the program reads from a computed style; the empty string when the
  property has no value.\<close>

record CSSStyle =
  stroke_width :: string
  vector_effect :: string

text \<open>The measurements of the elements of a rendered document, by address. \<open>None\<close> stands
  for a call that throws.\<close>

record layout =
  getBoundingClientRect :: "path \<Rightarrow> DOMRect option"
  getBBox :: "path \<Rightarrow> DOMRect option"
  getComputedStyle :: "path \<Rightarrow> CSSStyle option"

datatype exception = SyntaxError | TypeError | HostError

datatype message = console_error string | console_warn string | console_log string

record state =
  document :: node
  console :: "message list"

definition emit :: "message \<Rightarrow> state \<Rightarrow> state" where
  "emit m s = s\<lparr>console := console s @ [m]\<rparr>"

text \<open>\<open>document.querySelector\<close> for the selector of the caller, which may look at the place
  of an element in the document.\<close>

definition document_querySelector :: "(node \<Rightarrow> path \<Rightarrow> bool) \<Rightarrow> node \<Rightarrow> (path \<times> node) option" where
  "document_querySelector m doc = find (\<lambda>(p, d). m doc p) (elems doc)"

section \<open>The configuration\<close>

text \<open>The first element of the parsed \<open>heartIconSVGString\<close>: an SVG element with one path
  between two runs of whitespace.\<close>

definition heartIcon :: node where
  "heartIcon =
     (Element False ''svg''
        [(''xmlns'', ''http://www.w3.org/2000/svg''),
         (''viewBox'', ''0 0 24 24''),
         (''fill'', ''none''),
         (''stroke'', ''currentColor''),
         (''stroke-linecap'', ''round''),
         (''stroke-linejoin'', ''round''),
         (''aria-hidden'', ''true''),
         (''focusable'', ''false''),
         (''role'', ''presentation'')]
        None None
        [Text [CHR 0x0A, CHR '' '', CHR '' '', CHR '' '', CHR '' '', CHR '' '', CHR '' ''],
         Element False ''path''
           [(''d'', ''M20.84 4.61a5.5 5.5 0 0 0-7.78 0L12 5.67l-1.06-1.06a5.5 5.5 0 0 0-7.78 7.78l1.06 1.06L12 21.23l7.78-7.78 1.06-1.06a5.5 5.5 0 0 0 0-7.78z'')]
           None None [],
         Text [CHR 0x0A, CHR '' '', CHR '' '', CHR '' '', CHR '' '']])"

definition heartIconSVG :: "node option" where
  "heartIconSVG = Some heartIcon"

definition wishlistButtonId :: string where
  "wishlistButtonId = ''swym-wishlist-header-button''"

definition wishlistPageUrl :: string where
  "wishlistPageUrl = ''/apps/wishlist''"

definition wishlistAriaLabel :: string where
  "wishlistAriaLabel = ''Wishlist (0 items)''"

section \<open>createHeartSvg\<close>

text \<open>The result is the new element, or \<open>None\<close> with an error message.\<close>

definition createHeartSvg :: "node option \<Rightarrow> node option \<times> message list" where
  "createHeartSvg referenceIcon =
     (case heartIconSVG of
        None \<Rightarrow> (None, [console_error ''Swym: Heart SVG string is invalid.''])
      | Some newSvg \<Rightarrow>
          (case referenceIcon of
             None \<Rightarrow> (Some newSvg, [])
           | Some r \<Rightarrow>
               (Some (setAttribute ''class'' (DOMString (getAttribute ''class'' r)) newSvg), [])))"

section \<open>getIconInfo\<close>

record icon_info =
  el :: path
  svg :: "path option"
  bbox :: "DOMRect option"
  rect :: "DOMRect option"
  cstyle :: "CSSStyle option"
  transformAttr :: "string option"
  svgViewBox :: "string option"
  svgRect :: "DOMRect option"
  svgSizeAttrs :: "(string option \<times> string option) option"

definition matches_at :: "(node \<Rightarrow> bool) \<Rightarrow> node \<Rightarrow> path \<Rightarrow> bool" where
  "matches_at sel doc q = (case get_at doc q of None \<Rightarrow> False | Some a \<Rightarrow> sel a)"

text \<open>\<open>el.ownerSVGElement\<close>: undefined on an HTML element, else the nearest ancestor that is
  an SVG \<open>svg\<close> element.\<close>

definition ownerSVGElement :: "node \<Rightarrow> path \<Rightarrow> path option" where
  "ownerSVGElement doc p =
     (if matches_at isHTML doc p then None
      else find (matches_at (\<lambda>a. \<not> isHTML a \<and> localName a = ''svg'') doc) (ancestors p))"

text \<open>\<open>el.closest(sel)\<close>: the element itself or its nearest ancestor that matches.\<close>

definition closest :: "(node \<Rightarrow> bool) \<Rightarrow> node \<Rightarrow> path \<Rightarrow> path option" where
  "closest sel doc p = find (matches_at sel doc) (p # ancestors p)"

definition attribute_at :: "node \<Rightarrow> path \<Rightarrow> string \<Rightarrow> string option" where
  "attribute_at doc p a = (case get_at doc p of None \<Rightarrow> None | Some e \<Rightarrow> getAttribute a e)"

text \<open>The measurements of the element are read inside \<open>try\<close>; the bounding rectangle of the
  enclosing \<open>svg\<close> is not, so a throw there leaves the function.\<close>

definition getIconInfo :: "layout \<Rightarrow> node \<Rightarrow> path \<Rightarrow> exception + icon_info" where
  "getIconInfo lay doc p =
     (let sv = (case ownerSVGElement doc p of Some q \<Rightarrow> Some q | None \<Rightarrow> closest sel_svg doc p);
          info = \<lparr>el = p, svg = sv,
                  bbox = getBBox lay p,
                  rect = getBoundingClientRect lay p,
                  cstyle = getComputedStyle lay p,
                  transformAttr = attribute_at doc p ''transform'',
                  svgViewBox = (case sv of None \<Rightarrow> None | Some q \<Rightarrow> attribute_at doc q ''viewBox''),
                  svgRect = None,
                  svgSizeAttrs = (case sv of None \<Rightarrow> None
                     | Some q \<Rightarrow> Some (attribute_at doc q ''width'', attribute_at doc q ''height''))\<rparr>
      in case sv of
           None \<Rightarrow> Inr info
         | Some q \<Rightarrow>
             (case getBoundingClientRect lay q of
                None \<Rightarrow> Inl HostError
              | Some r \<Rightarrow> Inr (info\<lparr>svgRect := Some r\<rparr>)))"

section \<open>matchIconScale\<close>

text \<open>\<open>i.rect && i.rect.width ? i.rect.width : (i.bbox ? i.bbox.width : null)\<close>, for the
  width and for the height.\<close>

definition rendered :: "(DOMRect \<Rightarrow> jsnum) \<Rightarrow> icon_info \<Rightarrow> jsnum option" where
  "rendered side i =
     (if (case rect i of None \<Rightarrow> False | Some r \<Rightarrow> truthy (side r))
      then map_option side (rect i)
      else map_option side (bbox i))"

text \<open>\<open>!v\<close> for a number or \<open>null\<close>.\<close>

fun missing :: "jsnum option \<Rightarrow> bool" where
  "missing None = True"
| "missing (Some v) = (\<not> truthy v)"

definition desiredScale :: "jsnum \<Rightarrow> jsnum \<Rightarrow> jsnum \<Rightarrow> jsnum \<Rightarrow> jsnum" where
  "desiredScale refWidthPx heartWidthPx refHeightPx heartHeightPx =
     Math_max (js_div refWidthPx heartWidthPx) (js_div refHeightPx heartHeightPx)"

text \<open>The stroke width in pixels and the vector effect of the new path, from its computed
  style.\<close>

definition strokeWidthPx :: "runtime \<Rightarrow> CSSStyle option \<Rightarrow> jsnum" where
  "strokeWidthPx rt cs =
     (case cs of
        None \<Rightarrow> Num 1
      | Some st \<Rightarrow> (let parsed = parseFloat rt (stroke_width st)
                   in if isFinite parsed then parsed else Num 1))"

definition vectorEffect :: "CSSStyle option \<Rightarrow> string option" where
  "vectorEffect cs = map_option (\<lambda>st. trim (vector_effect st)) cs"

text \<open>\<open>vectorEffect && vectorEffect.indexOf('non-scaling-stroke') !== -1\<close>\<close>

definition nonScalingStroke :: "string option \<Rightarrow> bool" where
  "nonScalingStroke ve =
     (case ve of None \<Rightarrow> False | Some v \<Rightarrow> v \<noteq> [] \<and> str_includes v ''non-scaling-stroke'')"

definition maxScaleBy :: "bool \<Rightarrow> jsnum \<Rightarrow> jsnum \<Rightarrow> jsnum \<Rightarrow> jsnum" where
  "maxScaleBy nonScaling svgBox sw heartPx =
     (if nonScaling then js_div (js_sub svgBox sw) heartPx
      else js_div svgBox (js_add heartPx sw))"

text \<open>\<open>if (!(isFinite(m) && m > 0)) m = desiredScale\<close>\<close>

definition reasonable :: "jsnum \<Rightarrow> jsnum \<Rightarrow> jsnum" where
  "reasonable desired m = (if \<not> (isFinite m \<and> positive m) then desired else m)"

definition clampScale :: "jsnum \<Rightarrow> DOMRect option \<Rightarrow> bool \<Rightarrow> jsnum \<Rightarrow> jsnum \<Rightarrow> jsnum \<Rightarrow> jsnum" where
  "clampScale desired svgR nonScaling sw heartWidthPx heartHeightPx =
     (case svgR of
        None \<Rightarrow> desired
      | Some r \<Rightarrow>
          if truthy (width r) \<and> truthy (height r) then
            (let maxScaleByWidth = reasonable desired (maxScaleBy nonScaling (width r) sw heartWidthPx);
                 maxScaleByHeight = reasonable desired (maxScaleBy nonScaling (height r) sw heartHeightPx);
                 maxAllowedScale = Math_min maxScaleByWidth maxScaleByHeight
             in Math_min desired maxAllowedScale)
          else desired)"

text \<open>\<open>maxScaleDecimals = 3\<close> in the parameter list, then \<open>maxScaleDecimals || 3\<close>.\<close>

definition decimals :: "int option \<Rightarrow> int" where
  "decimals maxScaleDecimals =
     (let d = (case maxScaleDecimals of None \<Rightarrow> 3 | Some d \<Rightarrow> d) in if d = 0 then 3 else d)"

definition finalScale :: "runtime \<Rightarrow> int option \<Rightarrow> jsnum \<Rightarrow> jsnum" where
  "finalScale rt maxScaleDecimals clamp =
     (let pow = pow10 rt (decimals maxScaleDecimals)
      in js_div (Math_round (js_mul clamp pow)) pow)"

text \<open>The centre of the scaling, in user units.\<close>

definition center :: "runtime \<Rightarrow> string option \<Rightarrow> DOMRect option \<Rightarrow> jsnum \<times> jsnum" where
  "center rt vb bb =
     (case (if vb = Some [] then None else vb) of
        Some v \<Rightarrow>
          (case map (Number rt) (split_viewBox False [] v) of
             [minx, miny, w, h] \<Rightarrow>
               if list_all (\<lambda>n. \<not> isNaN n) [minx, miny, w, h]
               then (js_add minx (js_div w (Num 2)), js_add miny (js_div h (Num 2)))
               else (Num 12, Num 12)
           | _ \<Rightarrow> (Num 12, Num 12))
      | None \<Rightarrow>
          (case bb of
             Some b \<Rightarrow> (js_add (rect_x b) (js_div (width b) (Num 2)),
                        js_add (rect_y b) (js_div (height b) (Num 2)))
           | None \<Rightarrow> (Num 12, Num 12)))"

definition newTransform :: "runtime \<Rightarrow> jsnum \<Rightarrow> jsnum \<Rightarrow> jsnum \<Rightarrow> string" where
  "newTransform rt cx cy s =
     ''translate('' @ toString rt cx @ '' '' @ toString rt cy @ '') scale('' @ toString rt s @
     '') translate('' @ toString rt (js_neg cx) @ '' '' @ toString rt (js_neg cy) @ '')''"

text \<open>\<open>newTransform + (existing ? ' ' + existing : '')\<close>\<close>

definition withExisting :: "string \<Rightarrow> string option \<Rightarrow> string" where
  "withExisting new existing =
     (case existing of None \<Rightarrow> new | Some ex \<Rightarrow> if ex = [] then new else new @ '' '' @ ex)"

text \<open>The scale computed from the two sets of measurements, or \<open>None\<close> when a width or a
  height cannot be determined.\<close>

definition computedScale :: "runtime \<Rightarrow> icon_info \<Rightarrow> icon_info \<Rightarrow> int option \<Rightarrow> jsnum option" where
  "computedScale rt ref heart maxScaleDecimals =
     (let refWidthPx = rendered width ref;
          refHeightPx = rendered height ref;
          heartWidthPx = rendered width heart;
          heartHeightPx = rendered height heart
      in if missing refWidthPx \<or> missing heartWidthPx \<or> missing refHeightPx \<or> missing heartHeightPx
         then None
         else (case (refWidthPx, heartWidthPx, refHeightPx, heartHeightPx) of
                 (Some rw, Some hw, Some rh, Some hh) \<Rightarrow>
                   (let desired = desiredScale rw hw rh hh;
                        sw = strokeWidthPx rt (cstyle heart);
                        ve = vectorEffect (cstyle heart)
                    in Some (finalScale rt maxScaleDecimals
                               (clampScale desired (svgRect heart) (nonScalingStroke ve) sw hw hh)))
               | _ \<Rightarrow> None))"

text \<open>\<open>root.querySelector(sel)\<close> for an element of the document, as an address in the
  document.\<close>

definition querySelector_at :: "node \<Rightarrow> path \<Rightarrow> (node \<Rightarrow> bool) \<Rightarrow> path option" where
  "querySelector_at doc p sel =
     (case get_at doc p of
        None \<Rightarrow> None
      | Some e \<Rightarrow> map_option (\<lambda>(q, d). p @ q) (querySelector sel e))"

definition matchIconScale ::
  "runtime \<Rightarrow> layout \<Rightarrow> path option \<Rightarrow> path option \<Rightarrow> int option \<Rightarrow> state \<Rightarrow> exception + state" where
  "matchIconScale rt lay referenceIcon heartSvg maxScaleDecimals s =
     (case (referenceIcon, heartSvg) of
        (Some rp, Some hp) \<Rightarrow>
          (case querySelector_at (document s) rp sel_path of
             None \<Rightarrow> Inr (emit (console_warn ''Swym Scaler: No <path> found in reference icon. Cannot apply path-based scaling.'') s)
           | Some refEl \<Rightarrow>
               (case querySelector_at (document s) hp sel_path of
                  None \<Rightarrow> Inr (emit (console_warn ''Swym Scaler: No <path> found in new heart icon. Cannot scale.'') s)
                | Some heartEl \<Rightarrow>
                    (case getIconInfo lay (document s) refEl of
                       Inl e \<Rightarrow> Inl e
                     | Inr ref \<Rightarrow>
                         (case getIconInfo lay (document s) heartEl of
                            Inl e \<Rightarrow> Inl e
                          | Inr heart \<Rightarrow>
                              (case computedScale rt ref heart maxScaleDecimals of
                                 None \<Rightarrow> Inr (emit (console_warn ''Swym Scaler: Could not determine widths/heights for scaling. Check getBoundingClientRect/getBBox.'') s)
                               | Some fs \<Rightarrow>
                                   (case svg heart of
                                      None \<Rightarrow> Inr (emit (console_warn ''Swym Scaler: Heart svg not found.'') s)
                                    | Some sp \<Rightarrow>
                                        (case center rt (attribute_at (document s) sp ''viewBox'') (bbox heart) of
                                           (cx, cy) \<Rightarrow>
                                             (let existing = attribute_at (document s) heartEl ''transform'';
                                                  new = newTransform rt cx cy fs
                                              in Inr (emit (console_log ''Swym Scaler: Heart icon scaled.'')
                                                       (s\<lparr>document :=
                                                            map_at heartEl (setAttribute ''transform'' (withExisting new existing))
                                                              (document s)\<rparr>))))))))))
      | _ \<Rightarrow> Inr (emit (console_warn ''Swym Scaler: Missing reference or heart icon. Skipping scaling.'') s))"

section \<open>inject\<close>

text \<open>The steps on the clone, in the order of the source.\<close>

definition strip_cart_classes :: "node \<Rightarrow> node" where
  "strip_cart_classes w =
     classList_remove
       (filter (\<lambda>className. str_includes (toLowerCase className) ''cart'') (classList w)) w"

definition strip_cart_attributes :: "node \<Rightarrow> node" where
  "strip_cart_attributes w =
     forEach_descendant sel_data_cart_status (removeAttribute ''data-cart-status'')
       (forEach_descendant sel_id_cart (removeAttribute ''id'') w)"

definition strip_cart_hrefs :: "node \<Rightarrow> node" where
  "strip_cart_hrefs w =
     forEach_descendant sel_a_href_cart (removeAttribute ''href'')
       (if sel_a_href_cart w then removeAttribute ''href'' w else w)"

definition wire_click :: "node \<Rightarrow> node" where
  "wire_click w =
     (if tagName w = ''A'' then setAttribute ''href'' wishlistPageUrl w
      else set_onclick (NavigateTo wishlistPageUrl) (set_style_cursor ''pointer'' w))"

definition wishlist_clone :: "node \<Rightarrow> node" where
  "wishlist_clone cartElement =
     setAttribute ''aria-label'' wishlistAriaLabel
       (wire_click
         (strip_cart_hrefs
           (strip_cart_attributes
             (strip_cart_classes
               (setAttribute ''id'' wishlistButtonId (cloneNode cartElement))))))"

text \<open>The replacement of the icon inside the clone: the result is the clone, the address of
  the new icon inside it (when one was built) and the messages.\<close>

definition substitute_icon :: "node \<Rightarrow> node \<Rightarrow> node \<times> path option \<times> message list" where
  "substitute_icon cartElement w =
     (case (querySelector iconSelector w, querySelector iconSelector cartElement) of
        (Some (op, original), Some (rp, referenceIcon)) \<Rightarrow>
          (case createHeartSvg (Some referenceIcon) of
             (None, ms) \<Rightarrow> (w, None, ms)
           | (Some heartSvg, ms) \<Rightarrow> (map_at op (\<lambda>original. heartSvg) w, Some op, ms))
      | _ \<Rightarrow>
          (case createHeartSvg None of
             (None, ms) \<Rightarrow>
               (w, None,
                console_warn ''Swym: Could not find an icon (svg, i, img) inside the cloned cart element.'' # ms)
           | (Some heartSvg, ms) \<Rightarrow>
               (appendChild heartSvg w, Some [length (childNodes w)],
                console_warn ''Swym: Could not find an icon (svg, i, img) inside the cloned cart element.'' # ms)))"

text \<open>What the \<open>catch\<close> clause prints.\<close>

definition caught :: message where
  "caught = console_error ''Swym: Error injecting wishlist icon:''"

definition inject :: "runtime \<Rightarrow> (node \<Rightarrow> layout) \<Rightarrow> string \<Rightarrow> state \<Rightarrow> state" where
  "inject rt render cartSelector s =
     (if cartSelector = [] then emit (console_error ''Swym: No cart selector provided.'') s
      else
        (case selector rt cartSelector of
           None \<Rightarrow> emit caught s
         | Some m \<Rightarrow>
             (case document_querySelector m (document s) of
                None \<Rightarrow> emit (console_error (''Swym: Could not find element with selector: '' @ cartSelector)) s
              | Some (cartPath, cartElement) \<Rightarrow>
                  if getElementById wishlistButtonId (document s) \<noteq> None
                  then emit (console_log ''Swym: Wishlist icon already present.'') s
                  else
                    (case substitute_icon cartElement (wishlist_clone cartElement) of
                       (wishlistElement, heartSvg, ms) \<Rightarrow>
                         (let s1 = s\<lparr>console := console s @ ms\<rparr>
                          in if cartPath = [] then emit caught s1
                             else
                               (let pp = butlast cartPath;
                                    i = last cartPath;
                                    s2 = emit (console_log ''Swym: Wishlist icon injected successfully.'')
                                           (s1\<lparr>document := insertBefore pp i wishlistElement (document s1)\<rparr>)
                                in case (querySelector iconSelector cartElement, heartSvg) of
                                     (Some (rp, referenceIcon), Some hp) \<Rightarrow>
                                       (case matchIconScale rt (render (document s2))
                                               (Some (pp @ Suc i # rp)) (Some (cartPath @ hp)) None s2 of
                                          Inl e \<Rightarrow> emit caught s2
                                        | Inr s3 \<Rightarrow> s3)
                                   | _ \<Rightarrow> emit (console_warn ''Swym Scaler: Could not scale icon, missing referenceIcon or heartSvg.'') s2))))))"

section \<open>The scale as the specification words it\<close>

text \<open>
  The specification gives the applied scale as a formula of the measurements. The definitions
  of this section follow its words, to be compared with \<open>computedScale\<close>: the maximum on an
  axis, the replacement of a maximum that is not finite or not positive by the desired scale,
  the rounding to a number of decimal digits, and the scale itself.
\<close>

definition claimed_axis_max :: "bool \<Rightarrow> jsnum \<Rightarrow> jsnum \<Rightarrow> jsnum \<Rightarrow> jsnum" where
  "claimed_axis_max nonScaling viewport pathSize stroke =
     (if nonScaling then js_div (js_sub viewport stroke) pathSize
      else js_div viewport (js_add pathSize stroke))"

definition claimed_unconstrained :: "jsnum \<Rightarrow> jsnum \<Rightarrow> jsnum" where
  "claimed_unconstrained desired m = (if isFinite m \<and> positive m then m else desired)"

definition claimed_round :: "runtime \<Rightarrow> int \<Rightarrow> jsnum \<Rightarrow> jsnum" where
  "claimed_round rt precision v =
     js_div (Math_round (js_mul v (pow10 rt precision))) (pow10 rt precision)"

text \<open>The configured precision, three when none is given.\<close>

definition claimed_precision :: "int option \<Rightarrow> int" where
  "claimed_precision maxScaleDecimals = (case maxScaleDecimals of None \<Rightarrow> 3 | Some p \<Rightarrow> p)"

definition claimed_desired :: "jsnum \<Rightarrow> jsnum \<Rightarrow> jsnum \<Rightarrow> jsnum \<Rightarrow> jsnum" where
  "claimed_desired rw hw rh hh = Math_max (js_div rw hw) (js_div rh hh)"

definition claimed_scale ::
  "runtime \<Rightarrow> int \<Rightarrow> bool \<Rightarrow> jsnum \<Rightarrow> jsnum \<Rightarrow> jsnum \<Rightarrow> jsnum \<Rightarrow> jsnum \<Rightarrow> jsnum \<Rightarrow> jsnum \<Rightarrow> jsnum" where
  "claimed_scale rt precision nonScaling rw hw rh hh vw vh stroke =
     (let desired = claimed_desired rw hw rh hh;
          clamp = Math_min (claimed_unconstrained desired (claimed_axis_max nonScaling vw hw stroke))
                           (claimed_unconstrained desired (claimed_axis_max nonScaling vh hh stroke))
      in claimed_round rt precision (Math_min desired clamp))"

section \<open>The class tokens as the specification words them\<close>

text \<open>
  The specification speaks of the class tokens that contain the substring \<open>cart\<close> in any letter
  case: at some place of the token stand a \<open>c\<close> or \<open>C\<close>, an \<open>a\<close> or \<open>A\<close>, an \<open>r\<close> or \<open>R\<close> and a \<open>t\<close>
  or \<open>T\<close>, one after the other. The definitions of this section follow these words, to be
  compared with the test \<open>className.toLowerCase().includes('cart')\<close> of the code.
\<close>

fun claimed_cart_here :: "string \<Rightarrow> bool" where
  "claimed_cart_here (c1 # c2 # c3 # c4 # s) =
     (c1 \<in> {CHR ''c'', CHR ''C''} \<and> c2 \<in> {CHR ''a'', CHR ''A''}
      \<and> c3 \<in> {CHR ''r'', CHR ''R''} \<and> c4 \<in> {CHR ''t'', CHR ''T''})"
| "claimed_cart_here s = False"

fun claimed_cart_token :: "string \<Rightarrow> bool" where
  "claimed_cart_token [] = False"
| "claimed_cart_token (c # cs) = (claimed_cart_here (c # cs) \<or> claimed_cart_token cs)"

section \<open>Counting elements\<close>

fun isElement :: "node \<Rightarrow> bool" where
  "isElement (Text t) = False"
| "isElement (Element h n as c k ch) = True"

text \<open>The number of elements of a subtree that satisfy a property.\<close>

fun count_elems :: "(node \<Rightarrow> bool) \<Rightarrow> node \<Rightarrow> nat" where
  "count_elems P (Text t) = 0"
| "count_elems P (Element h n as c k ch) =
     (if P (Element h n as c k ch) then 1 else 0) + sum_list (map (count_elems P) ch)"

definition has_id :: "string \<Rightarrow> node \<Rightarrow> bool" where
  "has_id i e = (getAttribute ''id'' e = Some i)"

text \<open>What an element is apart from its children and its properties.\<close>

definition shape :: "node \<Rightarrow> bool \<times> string \<times> (string \<times> string) list" where
  "shape e = (isHTML e, localName e, attributes e)"

text \<open>A class token: not empty and without whitespace.\<close>

definition token :: "string \<Rightarrow> bool" where
  "token t = (t \<noteq> [] \<and> (\<forall>c \<in> set t. \<not> ascii_ws c))"

text \<open>A property of an element that looks at its namespace, name and attributes only.\<close>

definition shape_only :: "(node \<Rightarrow> bool) \<Rightarrow> bool" where
  "shape_only P = (\<forall>h n as c k ch c' k' ch'. P (Element h n as c k ch) = P (Element h n as c' k' ch'))"

text \<open>The number of proper descendants that satisfy a property.\<close>

definition count_descendants :: "(node \<Rightarrow> bool) \<Rightarrow> node \<Rightarrow> nat" where
  "count_descendants P e = sum_list (map (count_elems P) (childNodes e))"

text \<open>The state after a call that may have thrown: a throw leaves the state as it was.\<close>

fun after :: "state \<Rightarrow> exception + state \<Rightarrow> state" where
  "after s (Inl e) = s"
| "after s (Inr s') = s'"

section \<open>Example inputs\<close>

text \<open>
  A fragment of a runtime, enough for the examples. A selector made of letters, digits and
  hyphens is a type selector, which matches an HTML element whatever the case of its letters;
  any other string is taken not to be a selector. \<open>Number\<close> and \<open>parseFloat\<close> read plain decimal
  notation (a sign, digits, a point, digits), \<open>Number\<close> the whole string without the white space
  around it, the empty string as zero, and \<open>parseFloat\<close> the longest prefix after leading white
  space; what they cannot read is NaN, so a number written with an exponent, in another base or
  as \<open>Infinity\<close> is outside the fragment. \<open>toString\<close> prints a number of at most three decimal
  digits below \<open>10 ^ 21\<close>, for which the shortest notation that reads back as the number is the
  decimal one. \<open>pow10\<close> is the power rounded to binary64, which is exact up to \<open>10 ^ 22\<close>.
\<close>

definition digit :: "char \<Rightarrow> nat option" where
  "digit c = map_of (zip ''0123456789'' [0, 1, 2, 3, 4, 5, 6, 7, 8, 9]) c"

fun digits_value :: "nat \<Rightarrow> string \<Rightarrow> nat option" where
  "digits_value acc [] = Some acc"
| "digits_value acc (c # cs) =
     (case digit c of None \<Rightarrow> None | Some d \<Rightarrow> digits_value (10 * acc + d) cs)"

definition selector_char :: "char \<Rightarrow> bool" where
  "selector_char c = (c \<in> set lower_letters \<or> c \<in> set upper_letters \<or> digit c \<noteq> None \<or> c = CHR ''-'')"

definition type_selector :: "string \<Rightarrow> node \<Rightarrow> path \<Rightarrow> bool" where
  "type_selector sel doc p =
     matches_at (\<lambda>e. localName e = (if isHTML e then toLowerCase sel else sel)) doc p"

definition example_selector :: "string \<Rightarrow> (node \<Rightarrow> path \<Rightarrow> bool) option" where
  "example_selector sel =
     (if sel \<noteq> [] \<and> list_all selector_char sel
         \<and> (hd sel \<in> set lower_letters \<or> hd sel \<in> set upper_letters)
      then Some (type_selector sel)
      else None)"

text \<open>The number a string in decimal notation starts with, and the rest of the string.\<close>

definition decimal_prefix :: "string \<Rightarrow> (rat \<times> string) option" where
  "decimal_prefix v =
     (let signed = (v \<noteq> [] \<and> hd v \<in> {CHR ''-'', CHR ''+''});
          u = (if signed then tl v else v);
          ip = takeWhile (\<lambda>c. digit c \<noteq> None) u;
          r = dropWhile (\<lambda>c. digit c \<noteq> None) u;
          pointed = (r \<noteq> [] \<and> hd r = CHR ''.'');
          fp = (if pointed then takeWhile (\<lambda>c. digit c \<noteq> None) (tl r) else []);
          rest = (if pointed then dropWhile (\<lambda>c. digit c \<noteq> None) (tl r) else r)
      in case (digits_value 0 ip, digits_value 0 fp) of
           (Some i, Some f) \<Rightarrow>
             if ip = [] \<and> fp = [] then None
             else Some ((if signed \<and> hd v = CHR ''-'' then - 1 else 1)
                          * (of_nat i + of_nat f / 10 ^ length fp), rest)
         | _ \<Rightarrow> None)"

definition example_Number :: "string \<Rightarrow> jsnum" where
  "example_Number v =
     (if trim v = [] then Num 0
      else case decimal_prefix (trim v) of Some (x, []) \<Rightarrow> to_double x | _ \<Rightarrow> NaN)"

definition example_parseFloat :: "string \<Rightarrow> jsnum" where
  "example_parseFloat v =
     (case decimal_prefix (strip white_space_at v) of Some (x, r) \<Rightarrow> to_double x | None \<Rightarrow> NaN)"

text \<open>The decimal digits of a natural number, and of the thousandths of a number without the
  zeros at the end.\<close>

function print_nat :: "nat \<Rightarrow> string" where
  "print_nat n =
     (if n < 10 then [''0123456789'' ! n] else print_nat (n div 10) @ [''0123456789'' ! (n mod 10)])"
  by pat_completeness auto
termination
  by (relation "measure id") auto

definition print_thousandths :: "nat \<Rightarrow> string" where
  "print_thousandths k =
     (if k = 0 then []
      else if k mod 100 = 0 then CHR ''.'' # print_nat (k div 100)
      else if k mod 10 = 0 then CHR ''.'' # (if k < 100 then ''0'' else []) @ print_nat (k div 10)
      else CHR ''.'' # (if k < 10 then ''00'' else if k < 100 then ''0'' else []) @ print_nat k)"

definition example_toString :: "jsnum \<Rightarrow> string" where
  "example_toString v =
     (case v of
        NaN \<Rightarrow> ''NaN'' | PInf \<Rightarrow> ''Infinity'' | NInf \<Rightarrow> ''-Infinity''
      | Num x \<Rightarrow>
          (let k = \<lfloor>\<bar>x\<bar> * 1000 + 1 / 2\<rfloor>
           in if to_double (of_int k / 1000) = Num \<bar>x\<bar> \<and> k < 10 ^ 24
              then (if x < 0 then ''-'' else []) @ print_nat (nat (k div 1000))
                     @ print_thousandths (nat (k mod 1000))
              else ''NaN''))"

definition example_pow10 :: "int \<Rightarrow> jsnum" where
  "example_pow10 d = to_double (if 0 \<le> d then 10 ^ nat d else 1 / 10 ^ nat (- d))"

definition example_runtime :: runtime where
  "example_runtime =
     \<lparr>selector = example_selector, Number = example_Number,
      parseFloat = example_parseFloat, toString = example_toString, pow10 = example_pow10\<rparr>"

definition box :: "rat \<Rightarrow> rat \<Rightarrow> DOMRect" where
  "box w h = \<lparr>rect_x = Num 0, rect_y = Num 0, width = Num w, height = Num h\<rparr>"

text \<open>Measurements of a reference path of 15 by 15 pixels and of a new path of 10 by 10
  pixels with a stroke of one pixel, in an icon of 24 by 24 pixels.\<close>

definition example_ref :: icon_info where
  "example_ref =
     \<lparr>el = [0, 1, 0, 0], svg = Some [0, 1, 0], bbox = None, rect = Some (box 15 15),
      cstyle = None, transformAttr = None, svgViewBox = Some ''0 0 24 24'',
      svgRect = Some (box 15 15), svgSizeAttrs = Some (None, None)\<rparr>"

definition example_heart :: icon_info where
  "example_heart =
     \<lparr>el = [0, 0, 0, 1], svg = Some [0, 0, 0], bbox = None, rect = Some (box 10 10),
      cstyle = Some \<lparr>stroke_width = ''1px'', vector_effect = ''none''\<rparr>, transformAttr = None,
      svgViewBox = Some ''0 0 24 24'', svgRect = Some (box 24 24),
      svgSizeAttrs = Some (None, None)\<rparr>"

text \<open>The same with a reference path of 30 by 20 pixels.\<close>

definition example_ref_wide :: icon_info where
  "example_ref_wide = example_ref\<lparr>rect := Some (box 30 20)\<rparr>"

text \<open>
  A document whose body holds a cart button with an icon, and the same document after an
  injection, before the scaling: the new button with the new icon, whose \<open>viewBox\<close> is a
  parameter, in front of the cart button. The layout gives the reference path 15 by 15 pixels,
  the new path 10 by 10 pixels and every other element 24 by 24 pixels.
\<close>

definition example_icon :: node where
  "example_icon =
     Element False ''svg'' [(''class'', ''icon''), (''viewBox'', ''0 0 24 24'')] None None
       [Element False ''path'' [(''d'', ''M0 0h20v20z'')] None None []]"

definition example_cart :: node where
  "example_cart =
     Element True ''button'' [(''class'', ''header__icon header__icon--cart'')] None None
       [example_icon]"

definition example_document :: node where
  "example_document =
     Element True ''html'' [] None None [Element True ''body'' [] None None [example_cart]]"

definition example_injected :: "string \<Rightarrow> node" where
  "example_injected vb =
     Element True ''html'' [] None None
       [Element True ''body'' [] None None
          [Element True ''button'' [(''class'', ''header__icon''), (''id'', ''swym-wishlist-header-button'')]
             (Some ''pointer'') (Some (NavigateTo ''/apps/wishlist''))
             [Element False ''svg'' [(''viewBox'', vb), (''class'', ''icon'')] None None
                [Text '' '', Element False ''path'' [(''d'', ''M1 1h9v9z'')] None None []]],
           example_cart]]"

definition example_layout :: "node \<Rightarrow> layout" where
  "example_layout doc =
     \<lparr>getBoundingClientRect =
        (\<lambda>p. if p = [0, 1, 0, 0] then Some (box 15 15)
             else if p = [0, 0, 0, 1] then Some (box 10 10) else Some (box 24 24)),
      getBBox = (\<lambda>p. None),
      getComputedStyle = (\<lambda>p. Some \<lparr>stroke_width = ''1px'', vector_effect = ''none''\<rparr>)\<rparr>"

text \<open>The same layout with the bounding rectangles of the reference path and of the new icon
  as parameters.\<close>

definition example_measured :: "DOMRect \<Rightarrow> DOMRect \<Rightarrow> layout" where
  "example_measured refRect iconRect =
     \<lparr>getBoundingClientRect =
        (\<lambda>p. if p = [0, 1, 0, 0] then Some refRect
             else if p = [0, 0, 0, 1] then Some (box 10 10)
             else if p = [0, 0, 0] then Some iconRect else Some (box 24 24)),
      getBBox = (\<lambda>p. None),
      getComputedStyle = (\<lambda>p. Some \<lparr>stroke_width = ''1px'', vector_effect = ''none''\<rparr>)\<rparr>"



definition example_state :: state where
  "example_state = \<lparr>document = example_document, console = []\<rparr>"

definition example_injected_state :: "string \<Rightarrow> state" where
  "example_injected_state vb = \<lparr>document = example_injected vb, console = []\<rparr>"

text \<open>The injected document after the scaling by 1.5 about (12, 12).\<close>

definition example_scaled :: "string \<Rightarrow> state" where
  "example_scaled vb =
     \<lparr>document =
        map_at [0, 0, 0, 1]
          (setAttribute ''transform'' ''translate(12 12) scale(1.5) translate(-12 -12)'')
          (example_injected vb),
      console = [console_log ''Swym Scaler: Heart icon scaled.'']\<rparr>"

text \<open>The injected document after the new path was given a transform.\<close>

definition example_transformed :: "string \<Rightarrow> string \<Rightarrow> state" where
  "example_transformed vb t =
     \<lparr>document = map_at [0, 0, 0, 1] (setAttribute ''transform'' t) (example_injected vb),
      console = [console_log ''Swym Scaler: Heart icon scaled.'']\<rparr>"

text \<open>A document whose body holds a cart link without an icon.\<close>

definition example_link :: node where
  "example_link =
     Element True ''a'' [(''href'', ''/cart''), (''class'', ''site-nav cart-link Cart'')] None None
       [Text ''Cart'']"

definition example_link_document :: node where
  "example_link_document =
     Element True ''html'' [] None None [Element True ''body'' [] None None [example_link]]"

definition example_link_state :: state where
  "example_link_state = \<lparr>document = example_link_document, console = []\<rparr>"





text \<open>A reference icon without a class attribute.\<close>

definition example_bare_icon :: node where
  "example_bare_icon =
     Element False ''svg'' [(''viewBox'', ''0 0 20 20'')] None None
       [Element False ''path'' [(''d'', ''M0 0h20v20z'')] None None []]"

section \<open>Numbers: rounding and the scale\<close>

lemma to_double_not_NaN: "to_double x \<noteq> NaN"
  by (simp add: to_double_def Let_def signed_inf_def)

lemma binary_exponent_bounds:
  assumes "0 < a"
  shows "2 powi binary_exponent a \<le> a" and "a < 2 powi (binary_exponent a + 1)"
proof -
  have "2 powi binary_exponent a \<le> a \<and> a < 2 powi (binary_exponent a + 1)"
  proof (cases "1 \<le> a")
    case True
    define k where "k = \<lfloor>a\<rfloor>"
    have k: "1 \<le> k" using True by (simp add: k_def le_floor_iff)
    then have kp: "0 < k" by simp
    from bitlen_bounds[OF kp] have b: "2 ^ nat (bitlen k - 1) \<le> k" "k < 2 ^ nat (bitlen k)" by simp_all
    have bl: "1 \<le> bitlen k" using kp by (simp add: bitlen_alt_def)
    have e: "binary_exponent a = bitlen k - 1" using True by (simp add: binary_exponent_def k_def)
    have "(2::rat) powi (bitlen k - 1) = of_int (2 ^ nat (bitlen k - 1))"
      using bl by (simp add: power_int_def)
    also have "\<dots> \<le> of_int k" using b(1) by (simp only: of_int_le_iff)
    also have "\<dots> \<le> a" by (simp add: k_def)
    finally have 1: "2 powi binary_exponent a \<le> a" by (simp only: e)
    have "a < of_int (k + 1)" using floor_correct[of a] by (simp add: k_def)
    also have "\<dots> \<le> of_int (2 ^ nat (bitlen k))" using b(2) by (simp only: of_int_le_iff; simp)
    also have "\<dots> = (2::rat) powi (bitlen k - 1 + 1)" using bl by (simp add: power_int_def)
    finally have 2: "a < 2 powi (binary_exponent a + 1)" by (simp only: e)
    from 1 2 show ?thesis by simp
  next
    case False
    define c where "c = \<lceil>1 / a\<rceil>"
    define m where "m = c - 1"
    have ia: "1 < 1 / a" using False assms by simp
    then have "1 < c" by (simp add: c_def less_ceiling_iff)
    then have mp: "0 < m" by (simp add: m_def)
    from bitlen_bounds[OF mp] have b: "2 ^ nat (bitlen m - 1) \<le> m" "m < 2 ^ nat (bitlen m)" by simp_all
    have bl: "1 \<le> bitlen m" using mp by (simp add: bitlen_alt_def)
    have e: "binary_exponent a = - bitlen m" using False by (simp add: binary_exponent_def c_def m_def)
    have "1 / a \<le> of_int c" by (simp add: c_def)
    also have "\<dots> \<le> of_int (2 ^ nat (bitlen m))" using b(2) by (simp only: of_int_le_iff m_def; simp)
    also have "\<dots> = (2::rat) ^ nat (bitlen m)" by simp
    finally have "1 / a \<le> 2 ^ nat (bitlen m)" .
    then have "1 / 2 ^ nat (bitlen m) \<le> a" using assms by (simp add: field_simps)
    moreover have "(2::rat) powi (- bitlen m) = 1 / 2 ^ nat (bitlen m)"
      using bl by (simp add: power_int_def field_simps)
    ultimately have 1: "2 powi binary_exponent a \<le> a" by (simp only: e)
    have "of_int (2 ^ nat (bitlen m - 1)) \<le> (of_int m :: rat)" using b(1) by (simp only: of_int_le_iff)
    also have "of_int m < 1 / a" by (simp add: m_def c_def) linarith
    finally have "(2::rat) ^ nat (bitlen m - 1) < 1 / a" by simp
    then have "a < 1 / 2 ^ nat (bitlen m - 1)" using assms by (simp add: field_simps)
    moreover have "(2::rat) powi (- bitlen m + 1) = 1 / 2 ^ nat (bitlen m - 1)"
      using bl by (simp add: power_int_def field_simps nat_diff_distrib')
    ultimately have 2: "a < 2 powi (binary_exponent a + 1)" by (simp only: e)
    from 1 2 show ?thesis by simp
  qed
  then show "2 powi binary_exponent a \<le> a" and "a < 2 powi (binary_exponent a + 1)" by simp_all
qed

lemma round_half_even_lower: "y - 1 / 2 \<le> of_int (round_half_even y)"
  unfolding round_half_even_def Let_def by (auto; linarith)

lemma to_double_lower:
  assumes "0 < x" and "1 / 2 ^ 1022 \<le> x" and "to_double x = Num y"
  shows "x * (1 - 1 / 2 ^ 53) \<le> y"
proof -
  define e where "e = binary_exponent x"
  define q where "q = e - 52"
  define n where "n = round_half_even (x / 2 powi q)"
  have lo: "2 powi e \<le> x" and hi: "x < 2 powi (e + 1)"
    unfolding e_def using assms(1) by (rule binary_exponent_bounds)+
  have "(2::rat) powi (- 1022) = 1 / 2 ^ 1022" by (simp add: power_int_def field_simps)
  with assms(2) hi have "(2::rat) powi (- 1022) < 2 powi (e + 1)" by simp
  then have "- 1022 < e + 1"
    by (metis not_less power_int_increasing one_le_numeral)
  then have qe: "max (e - 52) (- 1074) = q" by (simp add: q_def)
  have x0: "(x = 0) = False" "(0 < x) = True" using assms(1) by simp_all
  have "to_double x =
      (if 971 < q \<or> (q = 971 \<and> 2 ^ 53 \<le> n) then signed_inf True else Num (of_int n * 2 powi q))"
    by (simp only: to_double_def Let_def abs_of_pos[OF assms(1)] e_def[symmetric] qe
        n_def[symmetric] x0 if_False if_True)
  with assms(3) have y: "y = of_int n * 2 powi q"
    by (cases "971 < q \<or> (q = 971 \<and> 2 ^ 53 \<le> n)") (simp_all only: if_True if_False signed_inf_def jsnum.simps)
  define p :: rat where "p = 2 powi q"
  have qp: "0 < p" by (simp add: p_def)
  have "x / p - 1 / 2 \<le> of_int n" unfolding n_def p_def by (rule round_half_even_lower)
  then have "(x / p - 1 / 2) * p \<le> of_int n * p"
    using qp by (simp only: mult_le_cancel_right_pos)
  moreover have "(x / p - 1 / 2) * p = x - p / 2" using qp by (simp add: field_simps)
  ultimately have 1: "x - p / 2 \<le> y" unfolding y p_def by simp
  have "p = 2 powi e / 2 ^ 52"
    unfolding q_def p_def by (subst power_int_diff) (simp_all add: power_int_def)
  also have "\<dots> \<le> x / 2 ^ 52" using lo by (simp add: divide_right_mono)
  finally have "p / 2 \<le> x / 2 ^ 53" by simp
  with 1 show ?thesis by (simp add: field_simps)
qed

lemma to_double_below:
  assumes "0 < x" and "js_le (to_double x) (Num D)"
  shows "\<exists>y. to_double x = Num y \<and> y \<le> D"
proof (cases "to_double x")
  case (Num y) with assms(2) show ?thesis by simp
next
  case PInf with assms(2) show ?thesis by simp
next
  case NInf
  with assms(1) show ?thesis by (simp add: to_double_def Let_def signed_inf_def split: if_splits)
next
  case NaN then show ?thesis by (simp add: to_double_not_NaN)
qed

lemma js_le_total: "a \<noteq> NaN \<Longrightarrow> b \<noteq> NaN \<Longrightarrow> js_le a b \<or> js_le b a"
  by (cases a; cases b) auto

lemma js_le_refl: "a \<noteq> NaN \<Longrightarrow> js_le a a"
  by (cases a) auto

lemma Math_max_larger:
  assumes "a \<noteq> NaN" and "b \<noteq> NaN"
  shows "(Math_max a b = a \<or> Math_max a b = b) \<and> js_le a (Math_max a b) \<and> js_le b (Math_max a b)"
  using assms js_le_total[OF assms] js_le_refl by (auto simp: Math_max_def isNaN_def)

lemma ratio_not_NaN: "0 < y \<Longrightarrow> js_div (Num x) (Num y) \<noteq> NaN"
  by (simp add: to_double_not_NaN)

lemma desiredScale_larger:
  assumes "0 < hw" and "0 < hh"
  shows "(desiredScale (Num rw) (Num hw) (Num rh) (Num hh) = js_div (Num rw) (Num hw)
          \<or> desiredScale (Num rw) (Num hw) (Num rh) (Num hh) = js_div (Num rh) (Num hh))
     \<and> js_le (js_div (Num rw) (Num hw)) (desiredScale (Num rw) (Num hw) (Num rh) (Num hh))
     \<and> js_le (js_div (Num rh) (Num hh)) (desiredScale (Num rw) (Num hw) (Num rh) (Num hh))"
  unfolding desiredScale_def
  by (rule Math_max_larger) (rule ratio_not_NaN, rule assms)+

lemma ratio_covered:
  assumes "0 < a" and "0 < b" and "js_le (js_div (Num a) (Num b)) (Num D)"
  shows "1 / 2 ^ 1022 \<le> a / b \<longrightarrow> a * (1 - 1 / 2 ^ 53) \<le> D * b"
    and "to_double (a / b) = Num (a / b) \<longrightarrow> a \<le> D * b"
proof -
  have q: "0 < a / b" using assms(1,2) by simp
  have le: "js_le (to_double (a / b)) (Num D)" using assms(2,3) by simp
  from to_double_below[OF q le] obtain y where y: "to_double (a / b) = Num y" "y \<le> D" by blast
  show "1 / 2 ^ 1022 \<le> a / b \<longrightarrow> a * (1 - 1 / 2 ^ 53) \<le> D * b"
  proof
    assume "1 / 2 ^ 1022 \<le> a / b"
    from to_double_lower[OF q this y(1)] have "a / b * (1 - 1 / 2 ^ 53) \<le> y" .
    with y(2) have "a / b * (1 - 1 / 2 ^ 53) \<le> D" by simp
    then have "a / b * (1 - 1 / 2 ^ 53) * b \<le> D * b"
      using assms(2) by (simp only: mult_le_cancel_right_pos)
    then show "a * (1 - 1 / 2 ^ 53) \<le> D * b" using assms(2) by simp
  qed
  show "to_double (a / b) = Num (a / b) \<longrightarrow> a \<le> D * b"
  proof
    assume "to_double (a / b) = Num (a / b)"
    with y have "a / b \<le> D" by simp
    then show "a \<le> D * b" using assms(2) by (simp only: pos_divide_le_eq)
  qed
qed

lemma computedScale_positive:
  assumes "rendered width ref = Some (Num rw)" "rendered width heart = Some (Num hw)"
    "rendered height ref = Some (Num rh)" "rendered height heart = Some (Num hh)"
    "0 < rw" "0 < hw" "0 < rh" "0 < hh"
  shows "computedScale rt ref heart d =
      Some (finalScale rt d (clampScale (desiredScale (Num rw) (Num hw) (Num rh) (Num hh)) (svgRect heart)
         (nonScalingStroke (vectorEffect (cstyle heart))) (strokeWidthPx rt (cstyle heart))
         (Num hw) (Num hh)))"
  using assms by (simp add: computedScale_def)

lemma finalScale_claimed_round:
  "d \<noteq> Some 0 \<Longrightarrow> finalScale rt d v = claimed_round rt (claimed_precision d) v"
  by (cases d) (simp_all add: finalScale_def claimed_round_def claimed_precision_def decimals_def Let_def)

lemma clampScale_claimed:
  assumes "truthy (width r)" "truthy (height r)"
  shows "clampScale (desiredScale rw hw rh hh) (Some r) ns sw hw hh
     = Math_min (claimed_desired rw hw rh hh)
         (Math_min
           (claimed_unconstrained (claimed_desired rw hw rh hh) (claimed_axis_max ns (width r) hw sw))
           (claimed_unconstrained (claimed_desired rw hw rh hh) (claimed_axis_max ns (height r) hh sw)))"
  using assms
  by (simp add: clampScale_def claimed_unconstrained_def claimed_axis_max_def reasonable_def
      maxScaleBy_def desiredScale_def claimed_desired_def Let_def)

lemma clampScale_skipped:
  assumes "\<not> (truthy (width r) \<and> truthy (height r))"
  shows "clampScale desired (Some r) ns sw hw hh = desired"
  using assms by (auto simp: clampScale_def)

lemma appliedScale_claimed:
  assumes "d \<noteq> Some 0"
  shows "finalScale rt d (clampScale (desiredScale rw hw rh hh) (Some r) ns sw hw hh)
     = (if truthy (width r) \<and> truthy (height r)
        then claimed_scale rt (claimed_precision d) ns rw hw rh hh (width r) (height r) sw
        else claimed_round rt (claimed_precision d) (claimed_desired rw hw rh hh))"
proof (cases "truthy (width r) \<and> truthy (height r)")
  case True
  then show ?thesis
    by (simp add: clampScale_claimed finalScale_claimed_round[OF assms] claimed_scale_def Let_def)
next
  case False
  then show ?thesis
    by (simp only: clampScale_skipped[OF False] finalScale_claimed_round[OF assms] if_False)
       (simp add: desiredScale_def claimed_desired_def)
qed

lemma example_measurements:
  "rendered width example_ref_wide = Some (Num 30)" "rendered height example_ref_wide = Some (Num 20)"
  "rendered width example_heart = Some (Num 10)" "rendered height example_heart = Some (Num 10)"
  by (simp_all add: rendered_def example_ref_wide_def example_ref_def example_heart_def box_def)

lemma matchIconScale_applies:
  assumes "querySelector_at (document s) rp sel_path = Some refEl"
    and "querySelector_at (document s) hp sel_path = Some heartEl"
    and "getIconInfo lay (document s) refEl = Inr ref"
    and "getIconInfo lay (document s) heartEl = Inr heart"
    and "computedScale rt ref heart d = Some fs"
    and "svg heart = Some sp"
  shows "matchIconScale rt lay (Some rp) (Some hp) d s =
      Inr (emit (console_log ''Swym Scaler: Heart icon scaled.'')
        (s\<lparr>document :=
            map_at heartEl
              (setAttribute ''transform''
                (withExisting
                  (newTransform rt
                    (fst (center rt (attribute_at (document s) sp ''viewBox'') (bbox heart)))
                    (snd (center rt (attribute_at (document s) sp ''viewBox'') (bbox heart))) fs)
                  (attribute_at (document s) heartEl ''transform'')))
              (document s)\<rparr>))"
  using assms by (simp add: matchIconScale_def Let_def split: prod.splits)

section \<open>Claims about the numbers\<close>

text \<open>
  Claim C6, as stated, fails on the code by the rounding of the division: for a reference path
  of 1 by 1 pixel and a new path of 49 by 49 pixels the desired scale is the binary64 value
  nearest to 1/49, which is below 1/49, so the new path scaled by it is smaller than the
  reference.
\<close>

theorem desired_scale_counterexample:
  "desiredScale (Num 1) (Num 49) (Num 1) (Num 49) = Num (5882252574524729 / 2 ^ 58)
   \<and> (5882252574524729 / 2 ^ 58) * 49 < (1::rat)"
  by code_simp

text \<open>
  Claim C6, amended. For a reference path and a new path whose rendered widths and heights are
  positive and finite, the desired scale is the larger of the two ratios reference width / new
  width and reference height / new height as binary64 division gives them: it is one of the two
  and not below either. It is one factor for both axes, the value the clamp and the rounding
  start from. A new path scaled by it is at least as wide and as high as the reference up to the
  rounding of the division: on an axis whose ratio is at least \<open>2 ^ - 1022\<close> the scaled size is
  at least the reference size times \<open>1 - 2 ^ - 53\<close>, and at least the reference size when the
  division on that axis is exact.
\<close>

theorem desired_scale_larger_ratio:
  assumes "rendered width ref = Some (Num rw)" and "rendered width heart = Some (Num hw)"
    and "rendered height ref = Some (Num rh)" and "rendered height heart = Some (Num hh)"
    and "0 < rw" and "0 < hw" and "0 < rh" and "0 < hh"
  shows "(desiredScale (Num rw) (Num hw) (Num rh) (Num hh) = js_div (Num rw) (Num hw)
          \<or> desiredScale (Num rw) (Num hw) (Num rh) (Num hh) = js_div (Num rh) (Num hh))
     \<and> js_le (js_div (Num rw) (Num hw)) (desiredScale (Num rw) (Num hw) (Num rh) (Num hh))
     \<and> js_le (js_div (Num rh) (Num hh)) (desiredScale (Num rw) (Num hw) (Num rh) (Num hh))
     \<and> computedScale rt ref heart d =
         Some (finalScale rt d (clampScale (desiredScale (Num rw) (Num hw) (Num rh) (Num hh))
           (svgRect heart) (nonScalingStroke (vectorEffect (cstyle heart)))
           (strokeWidthPx rt (cstyle heart)) (Num hw) (Num hh)))
     \<and> (desiredScale (Num rw) (Num hw) (Num rh) (Num hh) = Num D \<longrightarrow>
          (1 / 2 ^ 1022 \<le> rw / hw \<longrightarrow> rw * (1 - 1 / 2 ^ 53) \<le> D * hw)
          \<and> (1 / 2 ^ 1022 \<le> rh / hh \<longrightarrow> rh * (1 - 1 / 2 ^ 53) \<le> D * hh)
          \<and> (to_double (rw / hw) = Num (rw / hw) \<longrightarrow> rw \<le> D * hw)
          \<and> (to_double (rh / hh) = Num (rh / hh) \<longrightarrow> rh \<le> D * hh))"
proof -
  note l = desiredScale_larger[OF assms(6) assms(8), of rw rh]
  have c: "computedScale rt ref heart d =
         Some (finalScale rt d (clampScale (desiredScale (Num rw) (Num hw) (Num rh) (Num hh))
           (svgRect heart) (nonScalingStroke (vectorEffect (cstyle heart)))
           (strokeWidthPx rt (cstyle heart)) (Num hw) (Num hh)))"
    using assms by (rule computedScale_positive)
  have s: "desiredScale (Num rw) (Num hw) (Num rh) (Num hh) = Num D \<longrightarrow>
          (1 / 2 ^ 1022 \<le> rw / hw \<longrightarrow> rw * (1 - 1 / 2 ^ 53) \<le> D * hw)
          \<and> (1 / 2 ^ 1022 \<le> rh / hh \<longrightarrow> rh * (1 - 1 / 2 ^ 53) \<le> D * hh)
          \<and> (to_double (rw / hw) = Num (rw / hw) \<longrightarrow> rw \<le> D * hw)
          \<and> (to_double (rh / hh) = Num (rh / hh) \<longrightarrow> rh \<le> D * hh)"
  proof
    assume D: "desiredScale (Num rw) (Num hw) (Num rh) (Num hh) = Num D"
    have w: "js_le (js_div (Num rw) (Num hw)) (Num D)"
      using l[THEN conjunct2, THEN conjunct1] by (simp only: D)
    have h: "js_le (js_div (Num rh) (Num hh)) (Num D)"
      using l[THEN conjunct2, THEN conjunct2] by (simp only: D)
    show "(1 / 2 ^ 1022 \<le> rw / hw \<longrightarrow> rw * (1 - 1 / 2 ^ 53) \<le> D * hw)
          \<and> (1 / 2 ^ 1022 \<le> rh / hh \<longrightarrow> rh * (1 - 1 / 2 ^ 53) \<le> D * hh)
          \<and> (to_double (rw / hw) = Num (rw / hw) \<longrightarrow> rw \<le> D * hw)
          \<and> (to_double (rh / hh) = Num (rh / hh) \<longrightarrow> rh \<le> D * hh)"
      by (rule conjI[OF ratio_covered(1)[OF assms(5) assms(6) w]
            conjI[OF ratio_covered(1)[OF assms(7) assms(8) h]
              conjI[OF ratio_covered(2)[OF assms(5) assms(6) w]
                ratio_covered(2)[OF assms(7) assms(8) h]]]])
  qed
  show ?thesis
    by (rule conjI[OF l[THEN conjunct1] conjI[OF l[THEN conjunct2, THEN conjunct1]
          conjI[OF l[THEN conjunct2, THEN conjunct2] conjI[OF c s]]]])
qed

theorem desired_scale_larger_ratio_witness:
  "desiredScale (Num 30) (Num 10) (Num 20) (Num 10) = Num 3
   \<and> js_div (Num 30) (Num 10) = Num 3 \<and> js_div (Num 20) (Num 10) = Num 2
   \<and> js_le (Num 2) (Num 3)
   \<and> computedScale example_runtime example_ref_wide example_heart None
       = Some (finalScale example_runtime None (clampScale (Num 3) (svgRect example_heart)
           (nonScalingStroke (vectorEffect (cstyle example_heart)))
           (strokeWidthPx example_runtime (cstyle example_heart)) (Num 10) (Num 10)))
   \<and> (30::rat) * (1 - 1 / 2 ^ 53) \<le> 3 * 10 \<and> (20::rat) * (1 - 1 / 2 ^ 53) \<le> 3 * 10
   \<and> (30::rat) \<le> 3 * 10 \<and> (20::rat) \<le> 3 * 10"
proof -
  have v: "desiredScale (Num 30) (Num 10) (Num 20) (Num 10) = Num 3"
    "js_div (Num 30) (Num 10) = Num 3" "js_div (Num 20) (Num 10) = Num 2"
    by code_simp+
  have e: "to_double (30 / 10) = Num (30 / 10)" "to_double (20 / 10) = Num (20 / 10)"
    by code_simp+
  have n: "(1::rat) / 2 ^ 1022 \<le> 30 / 10" "(1::rat) / 2 ^ 1022 \<le> 20 / 10" by simp_all
  note T = desired_scale_larger_ratio[where rt = example_runtime and d = None and D = 3,
      OF example_measurements(1,3,2,4), unfolded v]
  have p: "(0::rat) < 30" "(0::rat) < 10" "(0::rat) < 20" by simp_all
  note U = T[OF p(1) p(2) p(3) p(2)]
  have 2: "js_le (Num 2) (Num 3)" using U[THEN conjunct2, THEN conjunct2, THEN conjunct1] .
  have 3: "computedScale example_runtime example_ref_wide example_heart None
       = Some (finalScale example_runtime None (clampScale (Num 3) (svgRect example_heart)
           (nonScalingStroke (vectorEffect (cstyle example_heart)))
           (strokeWidthPx example_runtime (cstyle example_heart)) (Num 10) (Num 10)))"
    using U[THEN conjunct2, THEN conjunct2, THEN conjunct2, THEN conjunct1] .
  note S = mp[OF U[THEN conjunct2, THEN conjunct2, THEN conjunct2, THEN conjunct2] refl]
  have 4: "(30::rat) * (1 - 1 / 2 ^ 53) \<le> 3 * 10" by (rule mp[OF S[THEN conjunct1] n(1)])
  have 5: "(20::rat) * (1 - 1 / 2 ^ 53) \<le> 3 * 10"
    by (rule mp[OF S[THEN conjunct2, THEN conjunct1] n(2)])
  have 6: "(30::rat) \<le> 3 * 10" by (rule mp[OF S[THEN conjunct2, THEN conjunct2, THEN conjunct1] e(1)])
  have 7: "(20::rat) \<le> 3 * 10" by (rule mp[OF S[THEN conjunct2, THEN conjunct2, THEN conjunct2] e(2)])
  show ?thesis
    by (rule conjI[OF v(1) conjI[OF v(2) conjI[OF v(3) conjI[OF 2 conjI[OF 3 conjI[OF 4
          conjI[OF 5 conjI[OF 6 7]]]]]]]])
qed


text \<open>
  Claim C1, as stated, fails on the code. When the rendered box of the new icon has a width or a
  height of zero the clamp is skipped as a whole: for a reference path of 20 by 20 pixels, a new
  path of 10 by 10 pixels with a stroke of one pixel and a box of 0 by 12 pixels the code applies
  the scale 2, where the formula of the claim gives 1.091. And a configured precision of zero is
  read as unset: for a reference path of 15 by 15 pixels the code applies 1.5, where rounding to
  zero digits gives 2.
\<close>

theorem applied_scale_counterexample:
  "matchIconScale example_runtime (example_measured (box 20 20) (box 0 12))
      (Some [0, 1, 0]) (Some [0, 0, 0]) None (example_injected_state ''0 0 24 24'')
     = Inr (example_transformed ''0 0 24 24'' ''translate(12 12) scale(2) translate(-12 -12)'')
   \<and> toString example_runtime
        (claimed_scale example_runtime 3 False (Num 20) (Num 10) (Num 20) (Num 10) (Num 0) (Num 12) (Num 1))
       = ''1.091''
   \<and> matchIconScale example_runtime (example_measured (box 15 15) (box 24 24))
      (Some [0, 1, 0]) (Some [0, 0, 0]) (Some 0) (example_injected_state ''0 0 24 24'')
     = Inr (example_transformed ''0 0 24 24'' ''translate(12 12) scale(1.5) translate(-12 -12)'')
   \<and> toString example_runtime
        (claimed_scale example_runtime 0 False (Num 15) (Num 10) (Num 15) (Num 10) (Num 24) (Num 24) (Num 1))
       = ''2''"
  by code_simp

text \<open>
  Claim C1, amended. For a reference path and a new path whose rendered widths and heights are
  positive and finite, the new path lying in an \<open>svg\<close> element, and for a configured precision
  other than zero (three when none is configured), the geometry matcher sets the transform of
  the new path with this scale: when the width and the height of the rendered box of that
  element are not zero, the minimum of the desired scale and the effective clamp, rounded to the
  precision, the clamp being the minimum of the two axis maxima, each replaced by the desired
  scale when it is not finite or not positive; when the width or the height of the box is zero,
  the desired scale rounded to the precision. The arithmetic is that of binary64, the rounding
  to \<open>p\<close> digits being \<open>Math.round(v * 10 ^ p) / 10 ^ p\<close>.
\<close>

theorem applied_scale_amended:
  assumes "querySelector_at (document s) rp sel_path = Some refEl"
    and "querySelector_at (document s) hp sel_path = Some heartEl"
    and "getIconInfo lay (document s) refEl = Inr ref"
    and "getIconInfo lay (document s) heartEl = Inr heart"
    and "rendered width ref = Some (Num rw)" and "rendered width heart = Some (Num hw)"
    and "rendered height ref = Some (Num rh)" and "rendered height heart = Some (Num hh)"
    and "0 < rw" and "0 < hw" and "0 < rh" and "0 < hh"
    and "svg heart = Some sp" and "svgRect heart = Some r"
    and "d \<noteq> Some 0"
  shows "matchIconScale rt lay (Some rp) (Some hp) d s =
      Inr (emit (console_log ''Swym Scaler: Heart icon scaled.'')
        (s\<lparr>document :=
            map_at heartEl
              (setAttribute ''transform''
                (withExisting
                  (newTransform rt
                    (fst (center rt (attribute_at (document s) sp ''viewBox'') (bbox heart)))
                    (snd (center rt (attribute_at (document s) sp ''viewBox'') (bbox heart)))
                    (if truthy (width r) \<and> truthy (height r)
                     then claimed_scale rt (claimed_precision d)
                            (nonScalingStroke (vectorEffect (cstyle heart)))
                            (Num rw) (Num hw) (Num rh) (Num hh) (width r) (height r)
                            (strokeWidthPx rt (cstyle heart))
                     else claimed_round rt (claimed_precision d)
                            (claimed_desired (Num rw) (Num hw) (Num rh) (Num hh))))
                  (attribute_at (document s) heartEl ''transform'')))
              (document s)\<rparr>))"
proof -
  have "computedScale rt ref heart d =
      Some (finalScale rt d (clampScale (desiredScale (Num rw) (Num hw) (Num rh) (Num hh)) (Some r)
         (nonScalingStroke (vectorEffect (cstyle heart))) (strokeWidthPx rt (cstyle heart))
         (Num hw) (Num hh)))"
    using computedScale_positive[OF assms(5-12)] by (simp only: assms(14))
  then have c: "computedScale rt ref heart d =
      Some (if truthy (width r) \<and> truthy (height r)
            then claimed_scale rt (claimed_precision d)
                   (nonScalingStroke (vectorEffect (cstyle heart)))
                   (Num rw) (Num hw) (Num rh) (Num hh) (width r) (height r)
                   (strokeWidthPx rt (cstyle heart))
            else claimed_round rt (claimed_precision d)
                   (claimed_desired (Num rw) (Num hw) (Num rh) (Num hh)))"
    by (simp only: appliedScale_claimed[OF assms(15)])
  show ?thesis by (rule matchIconScale_applies[OF assms(1-4) c assms(13)])
qed

lemma example_wide:
  "querySelector_at (document (example_injected_state ''0 0 24 24'')) [0, 1, 0] sel_path = Some [0, 1, 0, 0]"
  "querySelector_at (document (example_injected_state ''0 0 24 24'')) [0, 0, 0] sel_path = Some [0, 0, 0, 1]"
  "getIconInfo (example_measured (box 30 20) (box 24 24)) (document (example_injected_state ''0 0 24 24''))
      [0, 1, 0, 0]
     = Inr (example_ref_wide\<lparr>cstyle := Some \<lparr>stroke_width = ''1px'', vector_effect = ''none''\<rparr>,
              svgRect := Some (box 24 24)\<rparr>)"
  "getIconInfo (example_measured (box 30 20) (box 24 24)) (document (example_injected_state ''0 0 24 24''))
      [0, 0, 0, 1] = Inr example_heart"
  by code_simp+

theorem applied_scale_amended_witness:
  "matchIconScale example_runtime (example_measured (box 30 20) (box 24 24))
      (Some [0, 1, 0]) (Some [0, 0, 0]) None (example_injected_state ''0 0 24 24'')
     = Inr (example_transformed ''0 0 24 24'' ''translate(12 12) scale(2.182) translate(-12 -12)'')
   \<and> claimed_scale example_runtime 3 False (Num 30) (Num 10) (Num 20) (Num 10) (Num 24) (Num 24) (Num 1)
       = js_div (Num 2182) (Num 1000)
   \<and> claimed_desired (Num 30) (Num 10) (Num 20) (Num 10) = Num 3
   \<and> claimed_axis_max False (Num 24) (Num 10) (Num 1) = js_div (Num 24) (Num 11)"
proof -
  have m: "rendered width (example_ref_wide\<lparr>cstyle := Some \<lparr>stroke_width = ''1px'', vector_effect = ''none''\<rparr>,
              svgRect := Some (box 24 24)\<rparr>) = Some (Num 30)"
    "rendered height (example_ref_wide\<lparr>cstyle := Some \<lparr>stroke_width = ''1px'', vector_effect = ''none''\<rparr>,
              svgRect := Some (box 24 24)\<rparr>) = Some (Num 20)"
    by (simp_all add: rendered_def example_ref_wide_def example_ref_def box_def)
  have h: "svg example_heart = Some [0, 0, 0]" "svgRect example_heart = Some (box 24 24)"
    by (simp_all add: example_heart_def)
  have p: "(0::rat) < 30" "(0::rat) < 10" "(0::rat) < 20" "(None::int option) \<noteq> Some 0" by simp_all
  note T = applied_scale_amended[where rt = example_runtime,
      OF example_wide m(1) example_measurements(3) m(2) example_measurements(4)
        p(1) p(2) p(3) p(2) h p(4)]
  have e: "Inr (emit (console_log ''Swym Scaler: Heart icon scaled.'')
        (example_injected_state ''0 0 24 24''\<lparr>document :=
            map_at [0, 0, 0, 1]
              (setAttribute ''transform''
                (withExisting
                  (newTransform example_runtime
                    (fst (center example_runtime
                           (attribute_at (document (example_injected_state ''0 0 24 24'')) [0, 0, 0] ''viewBox'')
                           (bbox example_heart)))
                    (snd (center example_runtime
                           (attribute_at (document (example_injected_state ''0 0 24 24'')) [0, 0, 0] ''viewBox'')
                           (bbox example_heart)))
                    (if truthy (width (box 24 24)) \<and> truthy (height (box 24 24))
                     then claimed_scale example_runtime (claimed_precision None)
                            (nonScalingStroke (vectorEffect (cstyle example_heart)))
                            (Num 30) (Num 10) (Num 20) (Num 10) (width (box 24 24)) (height (box 24 24))
                            (strokeWidthPx example_runtime (cstyle example_heart))
                     else claimed_round example_runtime (claimed_precision None)
                            (claimed_desired (Num 30) (Num 10) (Num 20) (Num 10))))
                  (attribute_at (document (example_injected_state ''0 0 24 24'')) [0, 0, 0, 1] ''transform'')))
              (document (example_injected_state ''0 0 24 24''))\<rparr>))
      = (Inr (example_transformed ''0 0 24 24'' ''translate(12 12) scale(2.182) translate(-12 -12)'')
          :: exception + state)"
    by code_simp
  have 1: "matchIconScale example_runtime (example_measured (box 30 20) (box 24 24))
      (Some [0, 1, 0]) (Some [0, 0, 0]) None (example_injected_state ''0 0 24 24'')
     = Inr (example_transformed ''0 0 24 24'' ''translate(12 12) scale(2.182) translate(-12 -12)'')"
    using T by (simp only: e)
  have 2: "claimed_scale example_runtime 3 False (Num 30) (Num 10) (Num 20) (Num 10) (Num 24) (Num 24) (Num 1)
       = js_div (Num 2182) (Num 1000)"
    "claimed_desired (Num 30) (Num 10) (Num 20) (Num 10) = Num 3"
    "claimed_axis_max False (Num 24) (Num 10) (Num 1) = js_div (Num 24) (Num 11)"
    by code_simp+
  show ?thesis by (rule conjI[OF 1 conjI[OF 2(1) conjI[OF 2(2) 2(3)]]])
qed


section \<open>Claims about the icon factory\<close>

text \<open>
  Claim C10. When the reference icon has no class attribute, \<open>createHeartSvg\<close> returns the new
  icon with its class attribute set to the string \<open>null\<close>: the attribute is neither absent nor
  empty.
\<close>

theorem createHeartSvg_class_null:
  assumes "getAttribute ''class'' referenceIcon = None"
  shows "\<exists>newSvg. createHeartSvg (Some referenceIcon) = (Some newSvg, [])
            \<and> getAttribute ''class'' newSvg = Some ''null''"
  using assms by (simp add: createHeartSvg_def heartIconSVG_def heartIcon_def getAttribute_def)

theorem createHeartSvg_class_null_witness:
  "getAttribute ''class'' example_bare_icon = None
   \<and> (\<exists>newSvg. createHeartSvg (Some example_bare_icon) = (Some newSvg, [])
            \<and> getAttribute ''class'' newSvg = Some ''null'')"
proof -
  have a: "getAttribute ''class'' example_bare_icon = None"
    by (simp add: example_bare_icon_def getAttribute_def)
  from a createHeartSvg_class_null[OF a] show ?thesis by blast
qed

section \<open>The document tree: basic facts\<close>

lemma elems_get_at_aux:
  "(\<forall>p e. (p, e) \<in> set (elems n) \<longrightarrow> get_at n p = Some e \<and> isElement e)"
  "(\<forall>p e. (p, e) \<in> set (elems_from i xs) \<longrightarrow>
      (\<exists>j q. p = (i + j) # q \<and> j < length xs \<and> get_at (xs ! j) q = Some e \<and> isElement e))"
proof (induction n and i xs rule: elems_elems_from.induct)
  case (1 t)
  show ?case by simp
next
  case (2 h n as c k ch)
  show ?case
  proof (intro allI impI)
    fix p e assume a: "(p, e) \<in> set (elems (Element h n as c k ch))"
    show "get_at (Element h n as c k ch) p = Some e \<and> isElement e"
    proof (cases "p = [] \<and> e = Element h n as c k ch")
      case True then show ?thesis by simp
    next
      case False
      with a have "(p, e) \<in> set (elems_from 0 ch)" by auto
      with 2 obtain j q where jq: "p = j # q" "j < length ch" "get_at (ch ! j) q = Some e" "isElement e"
        by fastforce
      then show ?thesis by simp
    qed
  qed
next
  case (3 i)
  show ?case by simp
next
  case (4 i x xs)
  show ?case
  proof (intro allI impI)
    fix p e assume a: "(p, e) \<in> set (elems_from i (x # xs))"
    then consider (hd) q where "p = i # q" "(q, e) \<in> set (elems x)"
      | (tl) "(p, e) \<in> set (elems_from (Suc i) xs)"
      by auto
    then show "\<exists>j q. p = (i + j) # q \<and> j < length (x # xs) \<and> get_at ((x # xs) ! j) q = Some e \<and> isElement e"
    proof cases
      case hd
      with 4 have "get_at x q = Some e \<and> isElement e" by blast
      with hd show ?thesis by (intro exI[of _ 0] exI[of _ q]) simp
    next
      case tl
      with 4 obtain j q where "p = (Suc i + j) # q" "j < length xs" "get_at (xs ! j) q = Some e" "isElement e"
        by blast
      then show ?thesis by (intro exI[of _ "Suc j"] exI[of _ q]) simp
    qed
  qed
qed

lemma elems_get_at: "(p, e) \<in> set (elems n) \<Longrightarrow> get_at n p = Some e"
  using elems_get_at_aux(1) by blast

lemma elems_isElement: "(p, e) \<in> set (elems n) \<Longrightarrow> isElement e"
  using elems_get_at_aux(1) by blast

lemma tl_elems: "tl (elems n) = elems_from 0 (childNodes n)"
  by (cases n) simp_all

lemma tl_elems_nonempty: "(p, e) \<in> set (tl (elems n)) \<Longrightarrow> p \<noteq> []"
  using elems_get_at_aux(2)[of 0 "childNodes n"] by (auto simp: tl_elems)

lemma tl_elems_get_at: "(p, e) \<in> set (tl (elems n)) \<Longrightarrow> get_at n p = Some e"
  using elems_get_at_aux(2)[of 0 "childNodes n"] by (cases n) (fastforce simp: tl_elems)+

lemma find_SomeD: "find P xs = Some x \<Longrightarrow> x \<in> set xs \<and> P x"
  by (auto simp: find_Some_iff)

lemma querySelector_SomeD:
  "querySelector sel n = Some (p, e) \<Longrightarrow> p \<noteq> [] \<and> get_at n p = Some e \<and> sel e \<and> isElement e"
proof -
  assume "querySelector sel n = Some (p, e)"
  then have m: "(p, e) \<in> set (tl (elems n))" and s: "sel e"
    unfolding querySelector_def by (auto dest!: find_SomeD)
  from m have "(p, e) \<in> set (elems n)" by (cases "elems n") auto
  then have "isElement e" by (rule elems_isElement)
  with m s show ?thesis by (simp add: tl_elems_nonempty[OF m] tl_elems_get_at)
qed

lemma get_at_map_at: "get_at (map_at p f n) (p @ r) = Option.bind (get_at n p) (\<lambda>e. get_at (f e) r)"
proof (induction p arbitrary: n)
  case Nil show ?case by simp
next
  case (Cons i p)
  show ?case by (cases n) (simp_all add: Cons)
qed

lemma get_at_map_at_same: "get_at (map_at p f n) p = map_option f (get_at n p)"
  using get_at_map_at[of p f n "[]"] by (cases "get_at n p") simp_all

lemma get_at_map_at_disjoint:
  "\<not> prefix p q \<Longrightarrow> \<not> prefix q p \<Longrightarrow> get_at (map_at q f n) p = get_at n p"
proof (induction q arbitrary: p n)
  case Nil then show ?case by simp
next
  case (Cons i q)
  then obtain j p' where p: "p = j # p'" by (cases p) auto
  show ?case
  proof (cases n)
    case (Text t) then show ?thesis by (simp add: p)
  next
    case (Element h m as c k ch)
    show ?thesis
    proof (cases "i = j")
      case True
      with Cons.prems p have "\<not> prefix p' q" "\<not> prefix q p'" by auto
      then show ?thesis using Cons.IH[of p' "ch ! i"] by (simp add: Element p True)
    next
      case False then show ?thesis by (simp add: Element p)
    qed
  qed
qed


section \<open>The geometry matcher: outcomes\<close>

lemma matchIconScale_cases:
  assumes "matchIconScale rt lay referenceIcon heartSvg d s = res"
  shows "(\<exists>e. res = Inl e) \<or> (\<exists>m. res = Inr (emit (console_warn m) s)) \<or>
     (\<exists>rp hp refEl heartEl ref heart fs sp.
        referenceIcon = Some rp \<and> heartSvg = Some hp \<and>
        querySelector_at (document s) rp sel_path = Some refEl \<and>
        querySelector_at (document s) hp sel_path = Some heartEl \<and>
        getIconInfo lay (document s) refEl = Inr ref \<and>
        getIconInfo lay (document s) heartEl = Inr heart \<and>
        computedScale rt ref heart d = Some fs \<and> svg heart = Some sp \<and>
        res = Inr (emit (console_log ''Swym Scaler: Heart icon scaled.'')
                (s\<lparr>document :=
                    map_at heartEl
                      (setAttribute ''transform''
                        (withExisting
                          (newTransform rt
                            (fst (center rt (attribute_at (document s) sp ''viewBox'') (bbox heart)))
                            (snd (center rt (attribute_at (document s) sp ''viewBox'') (bbox heart))) fs)
                          (attribute_at (document s) heartEl ''transform'')))
                      (document s)\<rparr>)))"
  using assms unfolding matchIconScale_def
  by (auto split: option.splits sum.splits prod.splits simp: Let_def)


lemma get_at_append: "get_at n (p @ r) = Option.bind (get_at n p) (\<lambda>e. get_at e r)"
proof (induction p arbitrary: n)
  case Nil show ?case by simp
next
  case (Cons i p)
  show ?case by (cases n) (simp_all add: Cons)
qed

lemma querySelector_at_SomeD:
  assumes "querySelector_at doc p sel = Some q"
  shows "\<exists>r e. q = p @ r \<and> r \<noteq> [] \<and> get_at doc q = Some e \<and> sel e"
proof -
  from assms obtain n r e where n: "get_at doc p = Some n" and q: "querySelector sel n = Some (r, e)"
    and qr: "q = p @ r"
    by (auto simp: querySelector_at_def split: option.splits)
  from querySelector_SomeD[OF q] have "r \<noteq> []" "get_at n r = Some e" "sel e" by simp_all
  then show ?thesis using n qr by (auto simp: get_at_append)
qed

lemma not_prefix_append:
  assumes "\<not> prefix rp hp" "\<not> prefix hp rp"
  shows "\<not> prefix rp (hp @ r) \<and> \<not> prefix (hp @ r) rp"
  using assms by (metis prefix_append prefix_order.dual_order.trans prefixI prefix_same_cases)

lemma getIconInfo_fields:
  assumes "getIconInfo lay doc p = Inr i"
  shows "bbox i = getBBox lay p" "rect i = getBoundingClientRect lay p"
    "cstyle i = getComputedStyle lay p"
    "svg i = (case ownerSVGElement doc p of Some q \<Rightarrow> Some q | None \<Rightarrow> closest sel_svg doc p)"
  using assms by (auto simp: getIconInfo_def Let_def split: option.splits)


lemma matchIconScale_outcome [consumes 1, case_names thrown warned applied]:
  assumes "matchIconScale rt lay referenceIcon heartSvg d s = res"
    and "\<And>e. res = Inl e \<Longrightarrow> thesis"
    and "\<And>m. res = Inr (emit (console_warn m) s) \<Longrightarrow> thesis"
    and "\<And>hp heartEl v. heartSvg = Some hp \<Longrightarrow>
        querySelector_at (document s) hp sel_path = Some heartEl \<Longrightarrow>
        res = Inr (emit (console_log ''Swym Scaler: Heart icon scaled.'')
                (s\<lparr>document := map_at heartEl (setAttribute ''transform'' v) (document s)\<rparr>))
        \<Longrightarrow> thesis"
  shows thesis
  using matchIconScale_cases[OF assms(1)] assms(2-4) by blast

lemma matchIconScale_only_transform:
  "document (after s (matchIconScale rt lay (Some rp) (Some hp) d s)) = document s
   \<or> (\<exists>heartEl v. querySelector_at (document s) hp sel_path = Some heartEl
         \<and> document (after s (matchIconScale rt lay (Some rp) (Some hp) d s))
             = map_at heartEl (setAttribute ''transform'' v) (document s))"
proof -
  define res where "res = matchIconScale rt lay (Some rp) (Some hp) d s"
  from res_def[symmetric]
  have "document (after s res) = document s
     \<or> (\<exists>heartEl v. querySelector_at (document s) hp sel_path = Some heartEl
         \<and> document (after s res) = map_at heartEl (setAttribute ''transform'' v) (document s))"
  proof (cases rule: matchIconScale_outcome)
    case (thrown e) then show ?thesis by simp
  next
    case (warned m) then show ?thesis by (simp add: emit_def)
  next
    case (applied hp' heartEl v)
    then have "querySelector_at (document s) hp sel_path = Some heartEl" by simp
    with applied(3) show ?thesis by (auto simp: emit_def)
  qed
  then show ?thesis by (simp only: res_def)
qed

lemma matchIconScale_frame:
  assumes "\<not> prefix rp hp" and "\<not> prefix hp rp"
  shows "get_at (document (after s (matchIconScale rt lay (Some rp) (Some hp) d s))) rp
           = get_at (document s) rp
     \<and> (document (after s (matchIconScale rt lay (Some rp) (Some hp) d s)) = document s
        \<or> (\<exists>heartEl v. querySelector_at (document s) hp sel_path = Some heartEl
              \<and> document (after s (matchIconScale rt lay (Some rp) (Some hp) d s))
                  = map_at heartEl (setAttribute ''transform'' v) (document s)))"
proof -
  define res where "res = matchIconScale rt lay (Some rp) (Some hp) d s"
  from res_def[symmetric]
  have "get_at (document (after s res)) rp = get_at (document s) rp
     \<and> (document (after s res) = document s
        \<or> (\<exists>heartEl v. querySelector_at (document s) hp sel_path = Some heartEl
              \<and> document (after s res) = map_at heartEl (setAttribute ''transform'' v) (document s)))"
  proof (cases rule: matchIconScale_outcome)
    case (thrown e) then show ?thesis by simp
  next
    case (warned m) then show ?thesis by (simp add: emit_def)
  next
    case (applied hp' heartEl v)
    then have applied1: "querySelector_at (document s) hp sel_path = Some heartEl" by simp
    from querySelector_at_SomeD[OF applied1] obtain r where r: "heartEl = hp @ r" by blast
    have "\<not> prefix rp heartEl \<and> \<not> prefix heartEl rp"
      unfolding r using assms by (rule not_prefix_append)
    then have "get_at (map_at heartEl (setAttribute ''transform'' v) (document s)) rp
        = get_at (document s) rp"
      by (simp add: get_at_map_at_disjoint)
    with applied applied1 show ?thesis by (auto simp: emit_def)
  qed
  then show ?thesis by (simp only: res_def)
qed

section \<open>Claims about the geometry matcher\<close>



lemma example_run:
  "matchIconScale example_runtime (example_layout (example_injected ''0 0 24 24''))
      (Some [0, 1, 0]) (Some [0, 0, 0]) None (example_injected_state ''0 0 24 24'')
     = Inr (example_scaled ''0 0 24 24'')"
  by code_simp

lemma example_scaled_changed:
  "document (example_scaled vb) \<noteq> document (example_injected_state vb)"
  by (simp add: example_scaled_def example_injected_state_def example_injected_def example_cart_def)





text \<open>
  Claim C5. The \<open>viewBox\<close> \<open>0, 0, 48, 48\<close> declares the viewport whose centre is (24, 24), and the
  code finds this centre for the spellings \<open>0 0 48 48\<close> and \<open>0,0,48,48\<close>. Written with a comma and
  a space, the attribute is cut into seven pieces by \<open>split(/\s+|,/)\<close>, the test for four
  numbers fails and the transform is applied about the default centre (12, 12), which is not the
  centre of the declared viewport.
\<close>

theorem pivot_viewBox_comma_space:
  "split_viewBox False [] ''0, 0, 48, 48'' = [''0'', [], ''0'', [], ''48'', [], ''48'']
   \<and> center example_runtime (Some ''0, 0, 48, 48'') None = (Num 12, Num 12)
   \<and> center example_runtime (Some ''0 0 48 48'') None = (Num 24, Num 24)
   \<and> center example_runtime (Some ''0,0,48,48'') None = (Num 24, Num 24)
   \<and> matchIconScale example_runtime (example_layout (example_injected ''0, 0, 48, 48''))
        (Some [0, 1, 0]) (Some [0, 0, 0]) None (example_injected_state ''0, 0, 48, 48'')
      = Inr (example_transformed ''0, 0, 48, 48'' ''translate(12 12) scale(1.5) translate(-12 -12)'')
   \<and> matchIconScale example_runtime (example_layout (example_injected ''0 0 48 48''))
        (Some [0, 1, 0]) (Some [0, 0, 0]) None (example_injected_state ''0 0 48 48'')
      = Inr (example_transformed ''0 0 48 48'' ''translate(24 24) scale(1.5) translate(-24 -24)'')"
  by code_simp

section \<open>Elements: attributes, names and class lists\<close>

lemma map_of_set_attr: "map_of (set_attr a v as) b = (if b = a then Some v else map_of as b)"
  by (induction as) auto

lemma map_of_filter_neq: "map_of (filter (\<lambda>(b, w). b \<noteq> a) as) c = (if c = a then None else map_of as c)"
  by (induction as) auto

lemma getAttribute_setAttribute:
  "isElement e \<Longrightarrow> getAttribute b (setAttribute a v e) = (if b = a then Some v else getAttribute b e)"
  by (cases e) (simp_all add: getAttribute_def map_of_set_attr)

lemma getAttribute_removeAttribute:
  "getAttribute b (removeAttribute a e) = (if b = a then None else getAttribute b e)"
  by (cases e) (simp_all add: getAttribute_def map_of_filter_neq)

lemma isElement_steps [simp]:
  "isElement (setAttribute a v e) = isElement e"
  "isElement (removeAttribute a e) = isElement e"
  "isElement (set_onclick f e) = isElement e"
  "isElement (set_style_cursor u e) = isElement e"
  "isElement (appendChild x e) = isElement e"
  "isElement (cloneNode e) = isElement e"
  "isElement (forEach_descendant sel g e) = isElement e"
  "isElement (insert_child i x e) = isElement e"
  by (cases e; simp)+

lemma isElement_map_at: "p \<noteq> [] \<Longrightarrow> isElement (map_at p f e) = isElement e"
  by (cases p; cases e) simp_all

lemma shape_steps [simp]:
  "shape (set_onclick f e) = shape e"
  "shape (set_style_cursor u e) = shape e"
  "shape (appendChild x e) = shape e"
  "shape (cloneNode e) = shape e"
  "shape (forEach_descendant sel g e) = shape e"
  "shape (insert_child i x e) = shape e"
  by (cases e; simp add: shape_def)+

lemma shape_map_at: "p \<noteq> [] \<Longrightarrow> shape (map_at p f e) = shape e"
  by (cases p; cases e) (simp_all add: shape_def)

lemma shape_getAttribute: "shape e = shape e' \<Longrightarrow> getAttribute a e = getAttribute a e'"
  by (simp add: shape_def getAttribute_def)

lemma shape_tagName: "shape e = shape e' \<Longrightarrow> tagName e = tagName e'"
  by (simp add: shape_def tagName_def)

lemma shape_classList: "shape e = shape e' \<Longrightarrow> classList e = classList e'"
  by (simp add: classList_def shape_getAttribute[of e e'])

lemma names_setAttribute [simp]:
  "isHTML (setAttribute a v e) = isHTML e" "localName (setAttribute a v e) = localName e"
  "isHTML (removeAttribute a e) = isHTML e" "localName (removeAttribute a e) = localName e"
  by (cases e; simp)+

lemma tagName_steps [simp]:
  "tagName (setAttribute a v e) = tagName e"
  "tagName (removeAttribute a e) = tagName e"
  by (simp_all add: tagName_def)

lemma isElement_classList_remove [simp]: "isElement (classList_remove ts e) = isElement e"
  by (simp add: classList_remove_def Let_def)

lemma tagName_classList_remove [simp]: "tagName (classList_remove ts e) = tagName e"
  by (simp add: classList_remove_def Let_def)

lemma getAttribute_classList_remove:
  "isElement e \<Longrightarrow> a \<noteq> ''class'' \<Longrightarrow> getAttribute a (classList_remove ts e) = getAttribute a e"
  by (simp add: classList_remove_def Let_def getAttribute_setAttribute)

lemma split_ws_tokens:
  "(\<forall>c \<in> set cur. \<not> ascii_ws c) \<Longrightarrow> t \<in> set (split_ws cur s) \<Longrightarrow> token t"
proof (induction s arbitrary: cur)
  case Nil
  then show ?case by (cases "cur = []") (simp_all add: token_def)
next
  case (Cons c s)
  show ?case
  proof (cases "ascii_ws c")
    case True
    show ?thesis
    proof (cases "cur = []")
      case True
      with Cons.prems \<open>ascii_ws c\<close> have "t \<in> set (split_ws [] s)" by simp
      then show ?thesis by (rule Cons.IH[rotated]) simp
    next
      case False
      with Cons.prems \<open>ascii_ws c\<close> have "t = rev cur \<or> t \<in> set (split_ws [] s)" by simp
      then show ?thesis
      proof
        assume "t = rev cur"
        with False Cons.prems(1) show ?thesis by (simp add: token_def)
      next
        assume "t \<in> set (split_ws [] s)"
        then show ?thesis by (rule Cons.IH[rotated]) simp
      qed
    qed
  next
    case False
    with Cons.prems have "t \<in> set (split_ws (c # cur) s)" by simp
    then show ?thesis using False Cons.prems(1) by (intro Cons.IH[of "c # cur"]) simp_all
  qed
qed

lemma ordered_set_subset: "set (ordered_set seen ts) \<subseteq> set ts"
  by (induction seen ts rule: ordered_set.induct) auto

lemma ordered_set_fresh: "set (ordered_set seen ts) \<inter> set seen = {}"
  by (induction seen ts rule: ordered_set.induct) auto

lemma ordered_set_distinct: "distinct (ordered_set seen ts)"
proof (induction seen ts rule: ordered_set.induct)
  case (1 seen) show ?case by simp
next
  case (2 seen t ts)
  have "t \<notin> set (ordered_set (t # seen) ts)"
    using ordered_set_fresh[of "t # seen" ts] by auto
  with 2 show ?case by simp
qed

lemma ordered_set_id: "distinct ts \<Longrightarrow> set ts \<inter> set seen = {} \<Longrightarrow> ordered_set seen ts = ts"
  by (induction seen ts rule: ordered_set.induct) auto

lemma split_ws_word:
  "\<forall>c \<in> set t. \<not> ascii_ws c \<Longrightarrow> split_ws cur (t @ s) = split_ws (rev t @ cur) s"
  by (induction t arbitrary: cur) auto

lemma ascii_ws_space: "ascii_ws CHR '' ''"
  by (simp add: ascii_ws_def)

lemma split_ws_join:
  "\<forall>t \<in> set ts. token t \<Longrightarrow> split_ws [] (join_sp ts) = ts"
proof (induction ts rule: join_sp.induct)
  case 1 show ?case by simp
next
  case (2 t)
  then have "\<forall>c \<in> set t. \<not> ascii_ws c" "t \<noteq> []" by (simp_all add: token_def)
  then show ?case using split_ws_word[of t "[]" "[]"] by simp
next
  case (3 t u ts)
  then have t: "\<forall>c \<in> set t. \<not> ascii_ws c" "t \<noteq> []" by (simp_all add: token_def)
  from 3 have ih: "split_ws [] (join_sp (u # ts)) = u # ts" by simp
  have "split_ws [] (join_sp (t # u # ts)) = split_ws (rev t) (CHR '' '' # join_sp (u # ts))"
    using split_ws_word[OF t(1), of "[]"] by simp
  also have "\<dots> = t # split_ws [] (join_sp (u # ts))"
    using t(2) by (simp add: ascii_ws_space)
  finally show ?case by (simp only: ih)
qed

lemma classList_tokens:
  assumes "t \<in> set (classList e)"
  shows "token t"
proof (cases "getAttribute ''class'' e")
  case None
  with assms show ?thesis by (simp add: classList_def)
next
  case (Some v)
  with assms have "t \<in> set (ordered_set [] (split_ws [] v))" by (simp add: classList_def)
  then have "t \<in> set (split_ws [] v)" using ordered_set_subset by blast
  then show ?thesis by (rule split_ws_tokens[rotated]) simp
qed

lemma classList_distinct: "distinct (classList e)"
  by (simp add: classList_def ordered_set_distinct split: option.splits)

lemma classList_classList_remove:
  assumes "isElement e"
  shows "classList (classList_remove ts e) = filter (\<lambda>t. t \<notin> set ts) (classList e)"
proof (cases "getAttribute ''class'' e = None \<and> filter (\<lambda>t. t \<notin> set ts) (classList e) = []")
  case True
  then show ?thesis by (simp add: classList_remove_def classList_def)
next
  case False
  let ?toks = "filter (\<lambda>t. t \<notin> set ts) (classList e)"
  have tok: "\<forall>t \<in> set ?toks. token t" using classList_tokens by auto
  have dis: "distinct ?toks" using classList_distinct by auto
  from False have "classList (classList_remove ts e) = ordered_set [] (split_ws [] (join_sp ?toks))"
    using assms by (auto simp: classList_remove_def Let_def classList_def getAttribute_setAttribute)
  also have "\<dots> = ?toks"
    by (simp add: split_ws_join[OF tok] ordered_set_id[OF dis])
  finally show ?thesis .
qed

lemma classList_strip_cart_classes:
  assumes "isElement e"
  shows "classList (strip_cart_classes e)
     = filter (\<lambda>t. \<not> str_includes (toLowerCase t) ''cart'') (classList e)"
  unfolding strip_cart_classes_def classList_classList_remove[OF assms]
  by (rule filter_cong) auto

section \<open>The injector: the inserted element\<close>

lemma document_querySelector_SomeD:
  assumes "document_querySelector m doc = Some (p, e)"
  shows "get_at doc p = Some e" "isElement e"
proof -
  from assms have "(p, e) \<in> set (elems doc)"
    unfolding document_querySelector_def by (auto dest!: find_SomeD)
  then show "get_at doc p = Some e" "isElement e"
    by (rule elems_get_at, rule elems_isElement)
qed

lemma get_at_snoc:
  assumes "get_at doc (pp @ [i]) = Some c"
  obtains h n as k u ch where "get_at doc pp = Some (Element h n as k u ch)" "i < length ch" "ch ! i = c"
proof -
  from assms obtain parent where p: "get_at doc pp = Some parent" "get_at parent [i] = Some c"
    by (auto simp: get_at_append split: Option.bind_splits)
  then show thesis using that by (cases parent) (auto split: if_splits)
qed

lemma get_at_insertBefore:
  assumes "get_at doc (pp @ [i]) = Some c"
  shows "get_at (insertBefore pp i x doc) (pp @ [i]) = Some x"
proof -
  from assms obtain h n as k u ch where p: "get_at doc pp = Some (Element h n as k u ch)" "i < length ch"
    by (rule get_at_snoc)
  then show ?thesis
    by (simp add: insertBefore_def get_at_map_at nth_append)
qed

lemma get_at_map_at_below: "get_at (map_at (p @ r) f n) p = map_option (map_at r f) (get_at n p)"
proof (induction p arbitrary: n)
  case Nil show ?case by simp
next
  case (Cons i p)
  show ?case by (cases n) (simp_all add: Cons)
qed

lemma createHeartSvg_Some: "\<exists>h. createHeartSvg r = (Some h, [])"
  by (simp add: createHeartSvg_def heartIconSVG_def split: option.splits)

lemma substitute_icon_shape:
  assumes "substitute_icon c w = (w', hs, ms)"
  shows "shape w' = shape w" "isElement w' = isElement w"
proof -
  have "shape w' = shape w \<and> isElement w' = isElement w"
  proof (cases "querySelector iconSelector w")
    case None
    with assms createHeartSvg_Some[of None] show ?thesis
      by (auto simp: substitute_icon_def)
  next
    case (Some a)
    obtain op orig where a: "a = (op, orig)" by (cases a)
    from querySelector_SomeD[OF Some[unfolded a]] have op: "op \<noteq> []" by simp
    show ?thesis
    proof (cases "querySelector iconSelector c")
      case None
      with assms createHeartSvg_Some[of None] Some show ?thesis
        by (auto simp: substitute_icon_def a)
    next
      case (Some b)
      obtain rp r where b: "b = (rp, r)" by (cases b)
      from createHeartSvg_Some[of "Some r"] assms \<open>querySelector iconSelector w = Some a\<close> Some
      show ?thesis
        by (auto simp: substitute_icon_def a b shape_map_at[OF op] isElement_map_at[OF op])
    qed
  qed
  then show "shape w' = shape w" "isElement w' = isElement w" by simp_all
qed

lemma shape_eqI: "isHTML a = isHTML b \<Longrightarrow> localName a = localName b \<Longrightarrow> attributes a = attributes b \<Longrightarrow> shape a = shape b"
  by (simp add: shape_def)

lemma isElement_wishlist_clone [simp]: "isElement (wishlist_clone e) = isElement e"
  by (simp add: wishlist_clone_def wire_click_def strip_cart_hrefs_def strip_cart_attributes_def
      strip_cart_classes_def)

lemma tagName_forEach [simp]: "tagName (forEach_descendant sel g e) = tagName e"
  "tagName (cloneNode e) = tagName e" "tagName (set_onclick f e) = tagName e"
  "tagName (set_style_cursor u e) = tagName e"
  by (rule shape_tagName, simp)+

lemma tagName_wishlist_clone [simp]: "tagName (wishlist_clone e) = tagName e"
  by (simp add: wishlist_clone_def wire_click_def strip_cart_hrefs_def strip_cart_attributes_def
      strip_cart_classes_def)

lemma getAttribute_forEach [simp]:
  "getAttribute a (forEach_descendant sel g e) = getAttribute a e"
  "getAttribute a (cloneNode e) = getAttribute a e"
  "getAttribute a (set_onclick f e) = getAttribute a e"
  "getAttribute a (set_style_cursor u e) = getAttribute a e"
  by (rule shape_getAttribute, simp)+

lemma classList_cong: "getAttribute ''class'' a = getAttribute ''class'' b \<Longrightarrow> classList a = classList b"
  by (simp add: classList_def)

lemma class_after_strip:
  assumes "isElement e"
  shows "getAttribute ''class'' (wishlist_clone e)
     = getAttribute ''class'' (strip_cart_classes (setAttribute ''id'' wishlistButtonId (cloneNode e)))"
  using assms
  by (simp add: wishlist_clone_def wire_click_def strip_cart_hrefs_def strip_cart_attributes_def
      getAttribute_setAttribute getAttribute_removeAttribute strip_cart_classes_def)

lemma classList_wishlist_clone:
  assumes "isElement e"
  shows "classList (wishlist_clone e)
     = filter (\<lambda>t. \<not> str_includes (toLowerCase t) ''cart'') (classList e)"
proof -
  have "classList (wishlist_clone e)
      = classList (strip_cart_classes (setAttribute ''id'' wishlistButtonId (cloneNode e)))"
    by (rule classList_cong) (rule class_after_strip[OF assms])
  also have "\<dots> = filter (\<lambda>t. \<not> str_includes (toLowerCase t) ''cart'')
                     (classList (setAttribute ''id'' wishlistButtonId (cloneNode e)))"
    using assms by (simp add: classList_strip_cart_classes)
  also have "classList (setAttribute ''id'' wishlistButtonId (cloneNode e)) = classList e"
    using assms by (intro classList_cong) (simp add: getAttribute_setAttribute)
  finally show ?thesis .
qed


lemma inject_found:
  assumes "cartSelector \<noteq> []" "selector rt cartSelector = Some m"
    "document_querySelector m (document s) = Some (cartPath, cartElement)"
    "getElementById wishlistButtonId (document s) = None" "cartPath \<noteq> []"
    "substitute_icon cartElement (wishlist_clone cartElement) = (w, heartSvg, ms)"
  shows "inject rt render cartSelector s =
     (let s2 = emit (console_log ''Swym: Wishlist icon injected successfully.'')
                 (s\<lparr>console := console s @ ms,
                    document := insertBefore (butlast cartPath) (last cartPath) w (document s)\<rparr>)
      in case (querySelector iconSelector cartElement, heartSvg) of
           (Some (rp, referenceIcon), Some hp) \<Rightarrow>
             (case matchIconScale rt (render (document s2))
                     (Some (butlast cartPath @ Suc (last cartPath) # rp)) (Some (cartPath @ hp)) None s2 of
                Inl e \<Rightarrow> emit caught s2
              | Inr s3 \<Rightarrow> s3)
         | _ \<Rightarrow> emit (console_warn ''Swym Scaler: Could not scale icon, missing referenceIcon or heartSvg.'') s2)"
  using assms by (simp add: inject_def Let_def)

lemma inject_document:
  assumes "cartSelector \<noteq> []" "selector rt cartSelector = Some m"
    "document_querySelector m (document s) = Some (cartPath, cartElement)"
    "getElementById wishlistButtonId (document s) = None" "cartPath \<noteq> []"
    "substitute_icon cartElement (wishlist_clone cartElement) = (w, heartSvg, ms)"
  shows "document (inject rt render cartSelector s)
           = insertBefore (butlast cartPath) (last cartPath) w (document s)
     \<or> (\<exists>r v. r \<noteq> [] \<and> document (inject rt render cartSelector s)
           = map_at (cartPath @ r) (setAttribute ''transform'' v)
               (insertBefore (butlast cartPath) (last cartPath) w (document s)))"
proof -
  define s2 where "s2 = emit (console_log ''Swym: Wishlist icon injected successfully.'')
                 (s\<lparr>console := console s @ ms,
                    document := insertBefore (butlast cartPath) (last cartPath) w (document s)\<rparr>)"
  have d2: "document s2 = insertBefore (butlast cartPath) (last cartPath) w (document s)"
    by (simp add: s2_def emit_def)
  note inj = inject_found[OF assms, of render, folded s2_def, unfolded Let_def]
  show ?thesis
  proof (cases "\<exists>rp referenceIcon hp. querySelector iconSelector cartElement = Some (rp, referenceIcon)
        \<and> heartSvg = Some hp")
    case False
    then have "inject rt render cartSelector s
        = emit (console_warn ''Swym Scaler: Could not scale icon, missing referenceIcon or heartSvg.'') s2"
      unfolding inj by (auto split: option.splits prod.splits)
    then show ?thesis by (simp add: emit_def d2)
  next
    case True
    then obtain rp referenceIcon hp where q: "querySelector iconSelector cartElement = Some (rp, referenceIcon)"
      "heartSvg = Some hp" by blast
    define res where "res = matchIconScale rt (render (document s2))
                     (Some (butlast cartPath @ Suc (last cartPath) # rp)) (Some (cartPath @ hp)) None s2"
    have i: "inject rt render cartSelector s = (case res of Inl e \<Rightarrow> emit caught s2 | Inr s3 \<Rightarrow> s3)"
      unfolding inj res_def by (simp add: q)
    from res_def[symmetric] show ?thesis
    proof (cases rule: matchIconScale_outcome)
      case (thrown e)
      then show ?thesis by (simp add: i emit_def d2)
    next
      case (warned m)
      then show ?thesis by (simp add: i emit_def d2)
    next
      case (applied hp' heartEl v)
      then have "querySelector_at (document s2) (cartPath @ hp) sel_path = Some heartEl" by simp
      from querySelector_at_SomeD[OF this] obtain r where "heartEl = (cartPath @ hp) @ r" "r \<noteq> []"
        by blast
      then have "heartEl = cartPath @ (hp @ r)" "hp @ r \<noteq> []" by simp_all
      with applied(3) show ?thesis by (auto simp: i emit_def d2)
    qed
  qed
qed

lemma inject_inserted:
  assumes "cartSelector \<noteq> []" "selector rt cartSelector = Some m"
    "document_querySelector m (document s) = Some (cartPath, cartElement)"
    "getElementById wishlistButtonId (document s) = None" "cartPath \<noteq> []"
  shows "\<exists>w. get_at (document (inject rt render cartSelector s)) cartPath = Some w
            \<and> shape w = shape (wishlist_clone cartElement)"
proof -
  obtain w heartSvg ms where sub: "substitute_icon cartElement (wishlist_clone cartElement) = (w, heartSvg, ms)"
    by (cases "substitute_icon cartElement (wishlist_clone cartElement)") auto
  let ?D = "insertBefore (butlast cartPath) (last cartPath) w (document s)"
  have cp: "butlast cartPath @ [last cartPath] = cartPath" using assms(5) by simp
  have "get_at (document s) (butlast cartPath @ [last cartPath]) = Some cartElement"
    using document_querySelector_SomeD(1)[OF assms(3)] by (simp only: cp)
  then have g: "get_at ?D cartPath = Some w"
    using get_at_insertBefore[of "document s" "butlast cartPath" "last cartPath" cartElement w]
    by (simp only: cp)
  have sh: "shape w = shape (wishlist_clone cartElement)"
    using substitute_icon_shape(1)[OF sub] .
  from inject_document[OF assms sub, of render] show ?thesis
  proof
    assume "document (inject rt render cartSelector s) = ?D"
    with g sh show ?thesis by simp
  next
    assume "\<exists>r v. r \<noteq> [] \<and> document (inject rt render cartSelector s)
           = map_at (cartPath @ r) (setAttribute ''transform'' v) ?D"
    then obtain r v where r: "r \<noteq> []" "document (inject rt render cartSelector s)
           = map_at (cartPath @ r) (setAttribute ''transform'' v) ?D" by blast
    have "get_at (document (inject rt render cartSelector s)) cartPath
        = Some (map_at r (setAttribute ''transform'' v) w)"
      by (simp add: r(2) get_at_map_at_below g)
    moreover have "shape (map_at r (setAttribute ''transform'' v) w) = shape w"
      using r(1) by (rule shape_map_at)
    ultimately show ?thesis using sh by simp
  qed
qed

section \<open>Counting elements: facts\<close>

lemma shape_only_has_id: "shape_only (has_id i)"
  by (simp add: shape_only_def has_id_def getAttribute_def)

lemma shape_only_iconSelector: "shape_only iconSelector"
  by (simp add: shape_only_def iconSelector_def getAttribute_def)

lemma shape_onlyD: "shape_only P \<Longrightarrow> P (Element h n as c k ch) = P (Element h n as c' k' ch')"
  unfolding shape_only_def by blast

lemma count_elems_split:
  "isElement e \<Longrightarrow> count_elems P e = (if P e then 1 else 0) + count_descendants P e"
  by (cases e) (simp_all add: count_descendants_def)

lemma filter_elems_count:
  "length (filter (\<lambda>(p, e). P e) (elems n)) = count_elems P n"
  "length (filter (\<lambda>(p, e). P e) (elems_from i xs)) = sum_list (map (count_elems P) xs)"
proof (induction n and i xs rule: elems_elems_from.induct)
  case (1 t) show ?case by simp
next
  case (2 h n as c k ch) then show ?case by simp
next
  case (3 i) show ?case by simp
next
  case (4 i x xs)
  have "filter (\<lambda>(p, e). P e) (map (\<lambda>(p, e). (i # p, e)) (elems x))
      = map (\<lambda>(p, e). (i # p, e)) (filter (\<lambda>(p, e). P e) (elems x))"
    by (simp add: filter_map comp_def case_prod_unfold)
  then have "length (filter (\<lambda>(p, e). P e) (map (\<lambda>(p, e). (i # p, e)) (elems x))) = count_elems P x"
    using 4(1) by simp
  with 4(2) show ?case by simp
qed

lemma find_None_count: "(find Q xs = None) = (length (filter Q xs) = 0)"
  by (induction xs) auto

lemma getElementById_None: "(getElementById i doc = None) = (count_elems (has_id i) doc = 0)"
  unfolding getElementById_def find_None_count
  using filter_elems_count(1)[of "has_id i" doc] by (simp add: has_id_def)

lemma querySelector_None: "(querySelector P e = None) = (count_descendants P e = 0)"
  unfolding querySelector_def find_None_count tl_elems count_descendants_def
  using filter_elems_count(2)[of P 0 "childNodes e"] by simp

lemma sum_list_update_nat:
  fixes xs :: "nat list"
  shows "i < length xs \<Longrightarrow> sum_list (xs[i := y]) + xs ! i = sum_list xs + y"
  by (induction xs arbitrary: i) (auto split: nat.splits)

lemma count_map_at:
  assumes "shape_only P"
  shows "get_at n p = Some e \<Longrightarrow>
    count_elems P (map_at p f n) + count_elems P e = count_elems P n + count_elems P (f e)"
proof (induction p arbitrary: n)
  case Nil then show ?case by simp
next
  case (Cons i p)
  then obtain h m as c k ch where n: "n = Element h m as c k ch" by (cases n) auto
  with Cons.prems have i: "i < length ch" and g: "get_at (ch ! i) p = Some e"
    by (auto split: if_splits)
  have ih: "count_elems P (map_at p f (ch ! i)) + count_elems P e
       = count_elems P (ch ! i) + count_elems P (f e)"
    using Cons.IH[OF g] .
  have "sum_list ((map (count_elems P) ch)[i := count_elems P (map_at p f (ch ! i))])
        + (map (count_elems P) ch) ! i
      = sum_list (map (count_elems P) ch) + count_elems P (map_at p f (ch ! i))"
    using i by (intro sum_list_update_nat) simp
  with ih i have "sum_list (map (count_elems P) (ch[i := map_at p f (ch ! i)])) + count_elems P e
      = sum_list (map (count_elems P) ch) + count_elems P (f e)"
    by (simp add: map_update)
  moreover have "P (Element h m as c k (ch[i := map_at p f (ch ! i)])) = P (Element h m as c k ch)"
    using assms by (rule shape_onlyD)
  ultimately show ?case using i by (simp add: n)
qed

lemma map_at_missing: "get_at n p = None \<Longrightarrow> map_at p f n = n"
proof (induction p arbitrary: n)
  case Nil then show ?case by simp
next
  case (Cons i p)
  show ?case
  proof (cases n)
    case (Text t) then show ?thesis by simp
  next
    case (Element h m as c k ch)
    with Cons show ?thesis by (auto split: if_splits)
  qed
qed

lemma count_map_at_same:
  assumes "shape_only P" "\<And>e. count_elems P (f e) = count_elems P e"
  shows "count_elems P (map_at p f n) = count_elems P n"
proof (cases "get_at n p")
  case None then show ?thesis by (simp add: map_at_missing)
next
  case (Some e)
  from count_map_at[OF assms(1) Some, of f] assms(2)[of e] show ?thesis by simp
qed

lemma count_get_at: "get_at n p = Some e \<Longrightarrow> count_elems P e \<le> count_elems P n"
proof (induction p arbitrary: n)
  case Nil then show ?case by simp
next
  case (Cons i p)
  then obtain h m as c k ch where n: "n = Element h m as c k ch" by (cases n) auto
  with Cons.prems have i: "i < length ch" and g: "get_at (ch ! i) p = Some e"
    by (auto split: if_splits)
  have "count_elems P (ch ! i) \<le> sum_list (map (count_elems P) ch)"
    using i by (intro member_le_sum_list) simp_all
  with Cons.IH[OF g] show ?case by (simp add: n)
qed

lemma count_get_at_descendant:
  assumes "get_at n p = Some e" "p \<noteq> []"
  shows "count_elems P e \<le> count_descendants P n"
proof -
  from assms obtain i q where p: "p = i # q" by (cases p) auto
  with assms(1) obtain h m as c k ch where n: "n = Element h m as c k ch" by (cases n) auto
  with assms(1) p have i: "i < length ch" and g: "get_at (ch ! i) q = Some e"
    by (auto split: if_splits)
  have "count_elems P (ch ! i) \<le> sum_list (map (count_elems P) ch)"
    using i by (intro member_le_sum_list) simp_all
  with count_get_at[OF g, of P] show ?thesis by (simp add: n count_descendants_def)
qed

lemma count_insert_child:
  assumes "shape_only P" "isElement e"
  shows "count_elems P (insert_child i x e) = count_elems P e + count_elems P x"
proof -
  from assms(2) obtain h m as c k ch where e: "e = Element h m as c k ch" by (cases e) auto
  have "sum_list (map (count_elems P) (take i ch)) + sum_list (map (count_elems P) (drop i ch))
      = sum_list (map (count_elems P) (take i ch @ drop i ch))"
    by (simp del: append_take_drop_id)
  also have "\<dots> = sum_list (map (count_elems P) ch)"
    by (simp only: append_take_drop_id)
  finally have "sum_list (map (count_elems P) (take i ch @ x # drop i ch))
      = sum_list (map (count_elems P) ch) + count_elems P x"
    by simp
  moreover have "P (Element h m as c k (take i ch @ x # drop i ch)) = P (Element h m as c k ch)"
    using assms(1) by (rule shape_onlyD)
  ultimately show ?thesis by (simp add: e)
qed

lemma count_cloneNode:
  assumes "shape_only P"
  shows "count_elems P (cloneNode n) = count_elems P n"
proof (induction n)
  case (Text t) show ?case by simp
next
  case (Element h m as c k ch)
  have "map (count_elems P \<circ> cloneNode) ch = map (count_elems P) ch"
    by (rule map_cong[OF refl]) (simp add: Element)
  then have "sum_list (map (count_elems P \<circ> cloneNode) ch) = sum_list (map (count_elems P) ch)"
    by (simp only:)
  moreover have "P (Element h m as c None (map cloneNode ch)) = P (Element h m as c k ch)"
    using assms by (rule shape_onlyD)
  ultimately show ?case by simp
qed

lemma count_update_matching:
  assumes "shape_only P" "\<And>e. P (removeAttribute a e) \<Longrightarrow> P e"
  shows "count_elems P (update_matching sel (removeAttribute a) n) \<le> count_elems P n"
proof (induction n)
  case (Text t) show ?case by simp
next
  case (Element h m as c k ch)
  let ?ch = "map (update_matching sel (removeAttribute a)) ch"
  have s: "sum_list (map (count_elems P) ?ch) \<le> sum_list (map (count_elems P) ch)"
    unfolding map_map using Element by (intro sum_list_mono) simp
  have p1: "P (Element h m as c k ?ch) = P (Element h m as c k ch)"
    using assms(1) by (rule shape_onlyD)
  have p2: "P (Element h m (filter (\<lambda>(b, w). b \<noteq> a) as) c k ?ch) \<Longrightarrow> P (Element h m as c k ch)"
    using assms(2)[of "Element h m as c k ?ch"] p1 by simp
  show ?case using s p1 p2 by auto
qed

lemma count_descendants_forEach:
  assumes "shape_only P" "\<And>e. P (removeAttribute a e) \<Longrightarrow> P e"
  shows "count_descendants P (forEach_descendant sel (removeAttribute a) n) \<le> count_descendants P n"
proof (cases n)
  case (Text t) then show ?thesis by simp
next
  case (Element h m as c k ch)
  have "sum_list (map (count_elems P) (map (update_matching sel (removeAttribute a)) ch))
      \<le> sum_list (map (count_elems P) ch)"
    unfolding map_map using count_update_matching[OF assms]
    by (intro sum_list_mono) simp
  then show ?thesis by (simp add: Element count_descendants_def)
qed

lemma childNodes_steps [simp]:
  "childNodes (setAttribute a v e) = childNodes e"
  "childNodes (removeAttribute a e) = childNodes e"
  "childNodes (set_onclick f e) = childNodes e"
  "childNodes (set_style_cursor u e) = childNodes e"
  by (cases e; simp)+

lemma childNodes_classList_remove [simp]: "childNodes (classList_remove ts e) = childNodes e"
  by (simp add: classList_remove_def Let_def)

lemma count_descendants_steps [simp]:
  "count_descendants P (setAttribute a v e) = count_descendants P e"
  "count_descendants P (removeAttribute a e) = count_descendants P e"
  "count_descendants P (set_onclick f e) = count_descendants P e"
  "count_descendants P (set_style_cursor u e) = count_descendants P e"
  "count_descendants P (classList_remove ts e) = count_descendants P e"
  by (simp_all add: count_descendants_def)

lemma count_descendants_cloneNode:
  assumes "shape_only P"
  shows "count_descendants P (cloneNode e) = count_descendants P e"
proof (cases e)
  case (Text t) then show ?thesis by simp
next
  case (Element h m as c k ch)
  have "map (count_elems P \<circ> cloneNode) ch = map (count_elems P) ch"
    by (rule map_cong[OF refl]) (simp add: count_cloneNode[OF assms])
  then have "sum_list (map (count_elems P \<circ> cloneNode) ch) = sum_list (map (count_elems P) ch)"
    by (simp only:)
  then show ?thesis by (simp add: Element count_descendants_def)
qed

lemma count_descendants_wishlist_clone:
  assumes "shape_only P"
    and "\<And>e. P (removeAttribute ''id'' e) \<Longrightarrow> P e"
    and "\<And>e. P (removeAttribute ''data-cart-status'' e) \<Longrightarrow> P e"
    and "\<And>e. P (removeAttribute ''href'' e) \<Longrightarrow> P e"
  shows "count_descendants P (wishlist_clone e) \<le> count_descendants P e"
proof -
  let ?a = "strip_cart_classes (setAttribute ''id'' wishlistButtonId (cloneNode e))"
  let ?b = "forEach_descendant sel_id_cart (removeAttribute ''id'') ?a"
  let ?c = "forEach_descendant sel_data_cart_status (removeAttribute ''data-cart-status'') ?b"
  let ?d = "if sel_a_href_cart ?c then removeAttribute ''href'' ?c else ?c"
  let ?e = "forEach_descendant sel_a_href_cart (removeAttribute ''href'') ?d"
  have a: "count_descendants P ?a = count_descendants P e"
    by (simp add: strip_cart_classes_def count_descendants_cloneNode[OF assms(1)])
  have b: "count_descendants P ?b \<le> count_descendants P ?a"
    using assms(1,2) by (rule count_descendants_forEach)
  have c: "count_descendants P ?c \<le> count_descendants P ?b"
    using assms(1,3) by (rule count_descendants_forEach)
  have d: "count_descendants P ?d = count_descendants P ?c" by simp
  have e: "count_descendants P ?e \<le> count_descendants P ?d"
    using assms(1,4) by (rule count_descendants_forEach)
  have "count_descendants P (wishlist_clone e) = count_descendants P ?e"
    by (simp add: wishlist_clone_def wire_click_def strip_cart_hrefs_def strip_cart_attributes_def)
  with a b c d e show ?thesis by linarith
qed

lemma has_id_removeAttribute: "has_id i (removeAttribute a e) \<Longrightarrow> has_id i e"
  by (simp add: has_id_def getAttribute_removeAttribute split: if_splits)

lemma iconSelector_removeAttribute:
  "a \<noteq> ''class'' \<Longrightarrow> iconSelector (removeAttribute a e) = iconSelector e"
  by (simp add: iconSelector_def getAttribute_removeAttribute)

lemma id_wishlist_clone:
  assumes "isElement e"
  shows "getAttribute ''id'' (wishlist_clone e) = Some wishlistButtonId"
  using assms
  by (simp add: wishlist_clone_def wire_click_def strip_cart_hrefs_def strip_cart_attributes_def
      getAttribute_setAttribute getAttribute_removeAttribute strip_cart_classes_def
      getAttribute_classList_remove)

lemma count_wishlist_clone_id:
  assumes "isElement e" "count_descendants (has_id wishlistButtonId) e = 0"
  shows "count_elems (has_id wishlistButtonId) (wishlist_clone e) = 1"
    and "count_descendants (has_id wishlistButtonId) (wishlist_clone e) = 0"
proof -
  have "count_descendants (has_id wishlistButtonId) (wishlist_clone e)
      \<le> count_descendants (has_id wishlistButtonId) e"
    by (rule count_descendants_wishlist_clone) (rule shape_only_has_id, (rule has_id_removeAttribute, assumption)+)
  with assms(2) show d: "count_descendants (has_id wishlistButtonId) (wishlist_clone e) = 0" by simp
  have "has_id wishlistButtonId (wishlist_clone e)"
    by (simp add: has_id_def id_wishlist_clone[OF assms(1)])
  with d show "count_elems (has_id wishlistButtonId) (wishlist_clone e) = 1"
    using assms(1) by (simp add: count_elems_split)
qed

lemma count_heart_id:
  assumes "createHeartSvg r = (Some h, ms)"
  shows "count_elems (has_id i) h = 0"
  using assms
  by (auto simp: createHeartSvg_def heartIconSVG_def heartIcon_def has_id_def getAttribute_def
      split: option.splits)

lemma count_appendChild:
  assumes "shape_only P" "isElement e"
  shows "count_elems P (appendChild x e) = count_elems P e + count_elems P x"
proof -
  from assms(2) obtain h m as c k ch where e: "e = Element h m as c k ch" by (cases e) auto
  have "P (Element h m as c k (ch @ [x])) = P (Element h m as c k ch)"
    using assms(1) by (rule shape_onlyD)
  then show ?thesis by (simp add: e)
qed

lemma substitute_icon_count_id:
  assumes "substitute_icon c w = (w', hs, ms)" "isElement w"
    "count_descendants (has_id i) w = 0"
  shows "count_elems (has_id i) w' = count_elems (has_id i) w"
proof (cases "\<exists>op orig rp r. querySelector iconSelector w = Some (op, orig)
    \<and> querySelector iconSelector c = Some (rp, r)")
  case True
  then obtain op orig rp r where q: "querySelector iconSelector w = Some (op, orig)"
    "querySelector iconSelector c = Some (rp, r)" by blast
  obtain h where h: "createHeartSvg (Some r) = (Some h, [])" using createHeartSvg_Some by blast
  from assms(1) q h have w': "w' = map_at op (\<lambda>original. h) w" by (simp add: substitute_icon_def)
  from querySelector_SomeD[OF q(1)] have op: "op \<noteq> []" "get_at w op = Some orig" by simp_all
  have "count_elems (has_id i) orig \<le> count_descendants (has_id i) w"
    using op(2,1) by (rule count_get_at_descendant)
  with assms(3) have o: "count_elems (has_id i) orig = 0" by simp
  from count_map_at[OF shape_only_has_id op(2), of i "\<lambda>original. h"] o count_heart_id[OF h, of i]
  show ?thesis by (simp add: w')
next
  case False
  obtain h where h: "createHeartSvg None = (Some h, [])" using createHeartSvg_Some by blast
  from False assms(1) h have "w' = appendChild h w"
    by (auto simp: substitute_icon_def split: option.splits prod.splits)
  then show ?thesis
    using count_appendChild[OF shape_only_has_id assms(2), of i h] count_heart_id[OF h, of i] by simp
qed

lemma count_insertBefore:
  assumes "shape_only P" "get_at doc (pp @ [i]) = Some c"
  shows "count_elems P (insertBefore pp i x doc) = count_elems P doc + count_elems P x"
proof -
  from assms(2) obtain h n as k u ch where p: "get_at doc pp = Some (Element h n as k u ch)"
    by (rule get_at_snoc)
  from count_map_at[OF assms(1) p, of "insert_child i x"]
    count_insert_child[OF assms(1), of "Element h n as k u ch" i x]
  show ?thesis by (simp add: insertBefore_def)
qed

lemma count_id_setAttribute_transform:
  "count_elems (has_id i) (setAttribute ''transform'' v e) = count_elems (has_id i) e"
  by (cases e) (simp_all add: has_id_def getAttribute_def map_of_set_attr)

lemma inject_already_present:
  assumes "getElementById wishlistButtonId (document s) \<noteq> None"
  shows "document (inject rt render cartSelector s) = document s"
  using assms by (auto simp: inject_def emit_def split: option.splits prod.splits)

lemma inject_count_id:
  assumes "cartSelector \<noteq> []" "selector rt cartSelector = Some m"
    "document_querySelector m (document s) = Some (cartPath, cartElement)"
    "getElementById wishlistButtonId (document s) = None" "cartPath \<noteq> []"
  shows "count_elems (has_id wishlistButtonId) (document (inject rt render cartSelector s)) = 1"
proof -
  let ?P = "has_id wishlistButtonId"
  obtain w heartSvg ms where sub: "substitute_icon cartElement (wishlist_clone cartElement) = (w, heartSvg, ms)"
    by (cases "substitute_icon cartElement (wishlist_clone cartElement)") auto
  let ?D = "insertBefore (butlast cartPath) (last cartPath) w (document s)"
  have cp: "butlast cartPath @ [last cartPath] = cartPath" using assms(5) by simp
  note cart = document_querySelector_SomeD[OF assms(3)]
  have doc0: "count_elems ?P (document s) = 0" using assms(4) by (simp add: getElementById_None)
  have "count_elems ?P cartElement \<le> count_elems ?P (document s)"
    using cart(1) by (rule count_get_at)
  with doc0 have "count_descendants ?P cartElement = 0"
    using cart(2) by (simp add: count_elems_split)
  note wc = count_wishlist_clone_id[OF cart(2) this]
  have w1: "count_elems ?P w = 1"
    using substitute_icon_count_id[OF sub _ wc(2)] wc(1) cart(2) by simp
  have g: "get_at (document s) (butlast cartPath @ [last cartPath]) = Some cartElement"
    using cart(1) by (simp only: cp)
  have "count_elems ?P ?D = count_elems ?P (document s) + count_elems ?P w"
    using shape_only_has_id g by (rule count_insertBefore)
  with doc0 w1 have D: "count_elems ?P ?D = 1" by simp
  from inject_document[OF assms sub, of render] show ?thesis
  proof
    assume "document (inject rt render cartSelector s) = ?D"
    with D show ?thesis by simp
  next
    assume "\<exists>r v. r \<noteq> [] \<and> document (inject rt render cartSelector s)
           = map_at (cartPath @ r) (setAttribute ''transform'' v) ?D"
    then obtain r v where r: "document (inject rt render cartSelector s)
           = map_at (cartPath @ r) (setAttribute ''transform'' v) ?D" by blast
    have "count_elems ?P (map_at (cartPath @ r) (setAttribute ''transform'' v) ?D) = count_elems ?P ?D"
      using shape_only_has_id by (rule count_map_at_same) (rule count_id_setAttribute_transform)
    with r D show ?thesis by simp
  qed
qed

section \<open>The injector: a second call, and the reference icon\<close>

lemma matchIconScale_document_only:
  assumes "document s = document s'"
  shows "(case matchIconScale rt lay r h d s of
            Inl e \<Rightarrow> matchIconScale rt lay r h d s' = Inl e
          | Inr t \<Rightarrow> (\<exists>t'. matchIconScale rt lay r h d s' = Inr t' \<and> document t' = document t))"
  using assms unfolding matchIconScale_def
  by (auto simp: emit_def Let_def split: option.splits sum.splits prod.splits)

lemma after_document_only:
  assumes "document s = document s'" "document a = document a'"
  shows "document (case matchIconScale rt lay r h d s of Inl e \<Rightarrow> a | Inr t \<Rightarrow> t)
       = document (case matchIconScale rt lay r h d s' of Inl e \<Rightarrow> a' | Inr t \<Rightarrow> t)"
  using matchIconScale_document_only[OF assms(1), of rt lay r h d] assms(2)
  by (auto split: sum.splits)

lemma inject_not_found:
  assumes "\<not> (\<exists>m cartPath cartElement. cartSelector \<noteq> [] \<and> selector rt cartSelector = Some m
      \<and> document_querySelector m (document s) = Some (cartPath, cartElement)
      \<and> getElementById wishlistButtonId (document s) = None \<and> cartPath \<noteq> [])"
  shows "document (inject rt render cartSelector s) = document s"
  using assms unfolding inject_def
  by (auto simp: emit_def Let_def split: option.splits prod.splits)

lemma inject_document_only:
  assumes "document s = document s'"
  shows "document (inject rt render cartSelector s) = document (inject rt render cartSelector s')"
proof (cases "\<exists>m cartPath cartElement. cartSelector \<noteq> [] \<and> selector rt cartSelector = Some m
      \<and> document_querySelector m (document s) = Some (cartPath, cartElement)
      \<and> getElementById wishlistButtonId (document s) = None \<and> cartPath \<noteq> []")
  case False
  from inject_not_found[OF False, of render] inject_not_found[OF False[unfolded assms], of render] assms
  show ?thesis by simp
next
  case True
  then obtain m cartPath cartElement where h: "cartSelector \<noteq> []" "selector rt cartSelector = Some m"
      "document_querySelector m (document s) = Some (cartPath, cartElement)"
      "getElementById wishlistButtonId (document s) = None" "cartPath \<noteq> []" by blast
  obtain w heartSvg ms where sub: "substitute_icon cartElement (wishlist_clone cartElement) = (w, heartSvg, ms)"
    by (cases "substitute_icon cartElement (wishlist_clone cartElement)") auto
  note a = inject_found[OF h sub, of render, unfolded Let_def]
  note b = inject_found[OF h(1,2) h(3,4)[unfolded assms] h(5) sub, of render, unfolded Let_def]
  show ?thesis
    unfolding a b
    by (auto simp: emit_def assms split: option.splits prod.splits
          intro!: after_document_only)
qed

lemma inject_twice:
  "document (inject rt render cartSelector (inject rt render cartSelector s))
     = document (inject rt render cartSelector s)"
proof (cases "\<exists>m cartPath cartElement. cartSelector \<noteq> [] \<and> selector rt cartSelector = Some m
      \<and> document_querySelector m (document s) = Some (cartPath, cartElement)
      \<and> getElementById wishlistButtonId (document s) = None \<and> cartPath \<noteq> []")
  case False
  then have "document (inject rt render cartSelector s) = document s"
    by (rule inject_not_found)
  from inject_document_only[OF this, of rt render cartSelector] this show ?thesis by simp
next
  case True
  then obtain m cartPath cartElement where h: "cartSelector \<noteq> []" "selector rt cartSelector = Some m"
      "document_querySelector m (document s) = Some (cartPath, cartElement)"
      "getElementById wishlistButtonId (document s) = None" "cartPath \<noteq> []" by blast
  have "count_elems (has_id wishlistButtonId) (document (inject rt render cartSelector s)) = 1"
    using h by (rule inject_count_id)
  then have "getElementById wishlistButtonId (document (inject rt render cartSelector s)) \<noteq> None"
    by (simp add: getElementById_None)
  then show ?thesis by (rule inject_already_present)
qed

lemma get_at_insertBefore_shift:
  assumes "get_at doc (pp @ [i]) = Some c"
  shows "get_at (insertBefore pp i x doc) (pp @ Suc i # q) = get_at doc (pp @ i # q)"
proof -
  from assms obtain h n as k u ch where p: "get_at doc pp = Some (Element h n as k u ch)" "i < length ch"
    by (rule get_at_snoc)
  have "(take i ch @ x # drop i ch) ! Suc i = ch ! i"
    using p(2) by (simp add: nth_append min_def)
  then have "get_at (insert_child i x (Element h n as k u ch)) (Suc i # q)
      = get_at (Element h n as k u ch) (i # q)"
    using p(2) by simp
  moreover have "get_at (insertBefore pp i x doc) (pp @ Suc i # q)
      = get_at (insert_child i x (Element h n as k u ch)) (Suc i # q)"
    by (simp only: insertBefore_def get_at_map_at p(1) bind.bind_lunit)
  moreover have "get_at doc (pp @ i # q) = get_at (Element h n as k u ch) (i # q)"
    by (simp only: get_at_append p(1) bind.bind_lunit)
  ultimately show ?thesis by simp
qed

lemma sibling_paths_disjoint:
  "\<not> prefix (pp @ Suc i # rq) (pp @ i # hq) \<and> \<not> prefix (pp @ i # hq) (pp @ Suc i # rq)"
  by simp

lemma inject_reference_unchanged:
  assumes "cartSelector \<noteq> []" "selector rt cartSelector = Some m"
    "document_querySelector m (document s) = Some (cartPath, cartElement)"
    "getElementById wishlistButtonId (document s) = None" "cartPath \<noteq> []"
    "querySelector iconSelector cartElement = Some (rp, referenceIcon)"
  shows "get_at (document (inject rt render cartSelector s))
           (butlast cartPath @ Suc (last cartPath) # rp) = Some referenceIcon"
proof -
  obtain w heartSvg ms where sub: "substitute_icon cartElement (wishlist_clone cartElement) = (w, heartSvg, ms)"
    by (cases "substitute_icon cartElement (wishlist_clone cartElement)") auto
  let ?pp = "butlast cartPath" and ?i = "last cartPath"
  let ?D = "insertBefore ?pp ?i w (document s)"
  have cp: "?pp @ [?i] = cartPath" using assms(5) by simp
  have c: "get_at (document s) (?pp @ [?i]) = Some cartElement"
    using document_querySelector_SomeD(1)[OF assms(3)] by (simp only: cp)
  have "get_at (document s) (?pp @ ?i # rp) = Some referenceIcon"
    using c querySelector_SomeD[OF assms(6)] get_at_append[of "document s" "?pp @ [?i]" rp] by simp
  then have D: "get_at ?D (?pp @ Suc ?i # rp) = Some referenceIcon"
    using get_at_insertBefore_shift[OF c, of w rp] by simp
  from inject_document[OF assms(1-5) sub, of render] show ?thesis
  proof
    assume "document (inject rt render cartSelector s) = ?D"
    with D show ?thesis by simp
  next
    assume "\<exists>r v. r \<noteq> [] \<and> document (inject rt render cartSelector s)
           = map_at (cartPath @ r) (setAttribute ''transform'' v) ?D"
    then obtain r v where r: "document (inject rt render cartSelector s)
           = map_at (cartPath @ r) (setAttribute ''transform'' v) ?D" by blast
    have e: "cartPath @ r = ?pp @ ?i # r" using cp by (metis append_Cons append_Nil append_assoc)
    have "\<not> prefix (?pp @ Suc ?i # rp) (cartPath @ r) \<and> \<not> prefix (cartPath @ r) (?pp @ Suc ?i # rp)"
      unfolding e by simp
    then have "get_at (map_at (cartPath @ r) (setAttribute ''transform'' v) ?D) (?pp @ Suc ?i # rp)
        = get_at ?D (?pp @ Suc ?i # rp)"
      by (simp add: get_at_map_at_disjoint)
    with r D show ?thesis by simp
  qed
qed

section \<open>Claims about the injector\<close>

lemma count_heartIcon_icon: "count_elems iconSelector heartIcon = 1"
  by (simp add: heartIcon_def iconSelector_def getAttribute_def)

lemma heartIcon_plain:
  "getAttribute ''class'' heartIcon = None"
  "count_elems (\<lambda>d. getAttribute ''transform'' d \<noteq> None) heartIcon = 0"
  by (simp_all add: heartIcon_def getAttribute_def)

lemma count_descendants_appendChild:
  "isElement e \<Longrightarrow> count_descendants P (appendChild x e) = count_descendants P e + count_elems P x"
  by (cases e) (simp_all add: count_descendants_def)

lemma childNodes_appendChild: "isElement e \<Longrightarrow> childNodes (appendChild x e) = childNodes e @ [x]"
  by (cases e) simp_all

lemma no_icon_wishlist_clone:
  assumes "querySelector iconSelector e = None"
  shows "querySelector iconSelector (wishlist_clone e) = None"
proof -
  have "count_descendants iconSelector (wishlist_clone e) \<le> count_descendants iconSelector e"
    by (rule count_descendants_wishlist_clone)
       (rule shape_only_iconSelector, simp_all add: iconSelector_removeAttribute)
  with assms show ?thesis by (simp add: querySelector_None)
qed

lemma substitute_icon_fallback:
  assumes "querySelector iconSelector c = None"
  shows "substitute_icon c w =
     (appendChild heartIcon w, Some [length (childNodes w)],
      [console_warn ''Swym: Could not find an icon (svg, i, img) inside the cloned cart element.''])"
  using assms
  by (simp add: substitute_icon_def createHeartSvg_def heartIconSVG_def split: option.splits prod.splits)

text \<open>
  Claim C8. When the anchor has no icon-like descendant (no \<open>svg\<close>, no icon-font \<open>i\<close>, no
  \<open>img\<close>), an injection that finds the anchor inserts the sanitized clone with the plain heart
  icon appended as its last child. The clone had no icon-like descendant before, so the inserted
  element has exactly one. The icon is the template as it is: it has no class attribute, which
  a style reference would have set, and no element of it has a \<open>transform\<close> attribute. The
  messages are the warning that no icon was found, the log of the injection and the warning that
  the scaling was skipped: the geometry matcher, whose every outcome adds a message of its own or
  the message of the \<open>catch\<close> clause, is not called.
\<close>

theorem fallback_icon_appended:
  assumes "cartSelector \<noteq> []" and "selector rt cartSelector = Some m"
    and "document_querySelector m (document s) = Some (cartPath, cartElement)"
    and "getElementById wishlistButtonId (document s) = None" and "cartPath \<noteq> []"
    and "querySelector iconSelector cartElement = None"
  shows "document (inject rt render cartSelector s)
           = insertBefore (butlast cartPath) (last cartPath)
               (appendChild heartIcon (wishlist_clone cartElement)) (document s)
     \<and> get_at (document (inject rt render cartSelector s)) cartPath
           = Some (appendChild heartIcon (wishlist_clone cartElement))
     \<and> console (inject rt render cartSelector s)
           = console s @
             [console_warn ''Swym: Could not find an icon (svg, i, img) inside the cloned cart element.'',
              console_log ''Swym: Wishlist icon injected successfully.'',
              console_warn ''Swym Scaler: Could not scale icon, missing referenceIcon or heartSvg.'']
     \<and> querySelector iconSelector (wishlist_clone cartElement) = None
     \<and> childNodes (appendChild heartIcon (wishlist_clone cartElement))
           = childNodes (wishlist_clone cartElement) @ [heartIcon]
     \<and> count_descendants iconSelector (appendChild heartIcon (wishlist_clone cartElement)) = 1
     \<and> getAttribute ''class'' heartIcon = None
     \<and> count_elems (\<lambda>d. getAttribute ''transform'' d \<noteq> None) heartIcon = 0"
proof -
  let ?w = "appendChild heartIcon (wishlist_clone cartElement)"
  note cart = document_querySelector_SomeD[OF assms(3)]
  have el: "isElement (wishlist_clone cartElement)" using cart(2) by simp
  note sub = substitute_icon_fallback[OF assms(6), of "wishlist_clone cartElement"]
  have inj: "inject rt render cartSelector s =
      emit (console_warn ''Swym Scaler: Could not scale icon, missing referenceIcon or heartSvg.'')
        (emit (console_log ''Swym: Wishlist icon injected successfully.'')
           (s\<lparr>console := console s @
                [console_warn ''Swym: Could not find an icon (svg, i, img) inside the cloned cart element.''],
              document := insertBefore (butlast cartPath) (last cartPath) ?w (document s)\<rparr>))"
    unfolding inject_found[OF assms(1-5) sub, of render] by (simp add: assms(6))
  have 1: "document (inject rt render cartSelector s)
           = insertBefore (butlast cartPath) (last cartPath) ?w (document s)"
    by (simp add: inj emit_def)
  have cp: "butlast cartPath @ [last cartPath] = cartPath" using assms(5) by simp
  have "get_at (document s) (butlast cartPath @ [last cartPath]) = Some cartElement"
    using cart(1) by (simp only: cp)
  then have "get_at (insertBefore (butlast cartPath) (last cartPath) ?w (document s))
      (butlast cartPath @ [last cartPath]) = Some ?w"
    by (rule get_at_insertBefore)
  then have 2: "get_at (document (inject rt render cartSelector s)) cartPath = Some ?w"
    by (simp only: 1 cp)
  have 3: "console (inject rt render cartSelector s)
           = console s @
             [console_warn ''Swym: Could not find an icon (svg, i, img) inside the cloned cart element.'',
              console_log ''Swym: Wishlist icon injected successfully.'',
              console_warn ''Swym Scaler: Could not scale icon, missing referenceIcon or heartSvg.'']"
    by (simp add: inj emit_def)
  have 4: "querySelector iconSelector (wishlist_clone cartElement) = None"
    using assms(6) by (rule no_icon_wishlist_clone)
  have 5: "childNodes ?w = childNodes (wishlist_clone cartElement) @ [heartIcon]"
    using el by (rule childNodes_appendChild)
  have 6: "count_descendants iconSelector ?w = 1"
    using 4 by (simp add: count_descendants_appendChild[OF el] count_heartIcon_icon querySelector_None)
  show ?thesis
    by (rule conjI[OF 1 conjI[OF 2 conjI[OF 3 conjI[OF 4 conjI[OF 5 conjI[OF 6
          conjI[OF heartIcon_plain(1) heartIcon_plain(2)]]]]]]])
qed

lemma lower_char_cart:
  "lower_char x = CHR ''c'' \<longleftrightarrow> x = CHR ''c'' \<or> x = CHR ''C''"
  "lower_char x = CHR ''a'' \<longleftrightarrow> x = CHR ''a'' \<or> x = CHR ''A''"
  "lower_char x = CHR ''r'' \<longleftrightarrow> x = CHR ''r'' \<or> x = CHR ''R''"
  "lower_char x = CHR ''t'' \<longleftrightarrow> x = CHR ''t'' \<or> x = CHR ''T''"
  by (auto simp: lower_char_def upper_letters_def lower_letters_def split: if_splits)

lemma startsWith_cart: "startsWith (map lower_char s) ''cart'' = claimed_cart_here s"
  by (cases s rule: claimed_cart_here.cases) (simp_all add: lower_char_cart)

lemma includes_cart: "str_includes (toLowerCase t) ''cart'' = claimed_cart_token t"
proof (induction t)
  case Nil
  show ?case by (simp add: toLowerCase_def)
next
  case (Cons c cs)
  have "str_includes (toLowerCase (c # cs)) ''cart''
      = (startsWith (map lower_char (c # cs)) ''cart'' \<or> str_includes (toLowerCase cs) ''cart'')"
    by (simp add: toLowerCase_def)
  then show ?case by (simp only: startsWith_cart Cons claimed_cart_token.simps)
qed

text \<open>
  Claim C4. An injection that finds the anchor inserts an element whose class list is the class
  list of the anchor without the tokens that contain \<open>cart\<close> in any letter case: these tokens,
  N of them, are gone, and the other tokens are all there in their order.
\<close>

theorem inserted_classes_sanitized:
  assumes "cartSelector \<noteq> []" and "selector rt cartSelector = Some m"
    and "document_querySelector m (document s) = Some (cartPath, cartElement)"
    and "getElementById wishlistButtonId (document s) = None" and "cartPath \<noteq> []"
  shows "\<exists>w. get_at (document (inject rt render cartSelector s)) cartPath = Some w
     \<and> classList w = filter (\<lambda>t. \<not> claimed_cart_token t) (classList cartElement)
     \<and> length (classList w) + length (filter claimed_cart_token (classList cartElement))
         = length (classList cartElement)"
proof -
  from inject_inserted[OF assms, of render] obtain w where
    w: "get_at (document (inject rt render cartSelector s)) cartPath = Some w"
    "shape w = shape (wishlist_clone cartElement)" by blast
  have "classList w = classList (wishlist_clone cartElement)" using w(2) by (rule shape_classList)
  also have "\<dots> = filter (\<lambda>t. \<not> str_includes (toLowerCase t) ''cart'') (classList cartElement)"
    using document_querySelector_SomeD(2)[OF assms(3)] by (rule classList_wishlist_clone)
  finally have c: "classList w = filter (\<lambda>t. \<not> claimed_cart_token t) (classList cartElement)"
    by (simp only: includes_cart)
  have "length (filter (\<lambda>t. \<not> claimed_cart_token t) (classList cartElement))
         + length (filter claimed_cart_token (classList cartElement))
         = length (classList cartElement)"
    using sum_length_filter_compl[of claimed_cart_token "classList cartElement"] by simp
  with w(1) c show ?thesis by simp
qed


text \<open>
  Claim C3. When a call of \<open>inject\<close> on a document without an element of the reserved id finds
  an anchor that has a parent element, the document has exactly one element with the reserved id
  after the call, the inserted one. A second call of \<open>inject\<close> leaves the document as the first
  call left it, from any initial document. Whenever the document has an element with the
  reserved id, a call of \<open>inject\<close> does not change the document.
\<close>

theorem inject_idempotent:
  "(cartSelector \<noteq> [] \<and> selector rt cartSelector = Some m
      \<and> document_querySelector m (document s) = Some (cartPath, cartElement)
      \<and> getElementById wishlistButtonId (document s) = None \<and> cartPath \<noteq> []
     \<longrightarrow> length (filter (\<lambda>(p, e). getAttribute ''id'' e = Some wishlistButtonId)
                   (elems (document (inject rt render cartSelector s)))) = 1
        \<and> (\<exists>w. get_at (document (inject rt render cartSelector s)) cartPath = Some w
               \<and> getAttribute ''id'' w = Some wishlistButtonId))
   \<and> document (inject rt render cartSelector (inject rt render cartSelector s))
       = document (inject rt render cartSelector s)
   \<and> (\<forall>rt' render' sel' s'. getElementById wishlistButtonId (document s') \<noteq> None
         \<longrightarrow> document (inject rt' render' sel' s') = document s')"
proof -
  let ?s1 = "inject rt render cartSelector s"
  have 1: "cartSelector \<noteq> [] \<and> selector rt cartSelector = Some m
      \<and> document_querySelector m (document s) = Some (cartPath, cartElement)
      \<and> getElementById wishlistButtonId (document s) = None \<and> cartPath \<noteq> []
     \<longrightarrow> length (filter (\<lambda>(p, e). getAttribute ''id'' e = Some wishlistButtonId)
                   (elems (document ?s1))) = 1
        \<and> (\<exists>w. get_at (document ?s1) cartPath = Some w
               \<and> getAttribute ''id'' w = Some wishlistButtonId)"
  proof (intro impI, elim conjE)
    assume h: "cartSelector \<noteq> []" "selector rt cartSelector = Some m"
      "document_querySelector m (document s) = Some (cartPath, cartElement)"
      "getElementById wishlistButtonId (document s) = None" "cartPath \<noteq> []"
    have "count_elems (has_id wishlistButtonId) (document ?s1) = 1"
      using h by (rule inject_count_id)
    then have a: "length (filter (\<lambda>(p, e). getAttribute ''id'' e = Some wishlistButtonId)
                   (elems (document ?s1))) = 1"
      using filter_elems_count(1)[of "has_id wishlistButtonId" "document ?s1"]
      by (simp add: has_id_def)
    from inject_inserted[OF h, of render] obtain w where
      w: "get_at (document ?s1) cartPath = Some w" "shape w = shape (wishlist_clone cartElement)"
      by blast
    have "getAttribute ''id'' w = getAttribute ''id'' (wishlist_clone cartElement)"
      using w(2) by (rule shape_getAttribute)
    also have "\<dots> = Some wishlistButtonId"
      using document_querySelector_SomeD(2)[OF h(3)] by (rule id_wishlist_clone)
    finally have "\<exists>w. get_at (document ?s1) cartPath = Some w
            \<and> getAttribute ''id'' w = Some wishlistButtonId"
      using w(1) by blast
    with a show "length (filter (\<lambda>(p, e). getAttribute ''id'' e = Some wishlistButtonId)
                   (elems (document ?s1))) = 1
        \<and> (\<exists>w. get_at (document ?s1) cartPath = Some w
               \<and> getAttribute ''id'' w = Some wishlistButtonId)"
      by (rule conjI)
  qed
  have 2: "document (inject rt render cartSelector ?s1) = document ?s1"
    by (rule inject_twice)
  have 3: "\<forall>rt' render' sel' s'. getElementById wishlistButtonId (document s') \<noteq> None
           \<longrightarrow> document (inject rt' render' sel' s') = document s'"
    using inject_already_present by blast
  show ?thesis by (rule conjI[OF 1 conjI[OF 2 3]])
qed

lemma example_button_found:
  "selector example_runtime ''button'' = Some (type_selector ''button'')"
  "document_querySelector (type_selector ''button'')
     (document example_state) = Some ([0, 0], example_cart)"
  "getElementById wishlistButtonId (document example_state) = None"
  by (simp add: example_runtime_def example_selector_def selector_char_def lower_letters_def, code_simp+)

lemma example_link_found:
  "selector example_runtime ''a'' = Some (type_selector ''a'')"
  "document_querySelector (type_selector ''a'')
     (document example_link_state) = Some ([0, 0], example_link)"
  "getElementById wishlistButtonId (document example_link_state) = None"
  "tagName example_link = ''A''"
  "querySelector iconSelector example_link = None"
  by (simp add: example_runtime_def example_selector_def selector_char_def lower_letters_def, code_simp+)

theorem inserted_classes_sanitized_witness:
  "classList example_link = [''site-nav'', ''cart-link'', ''Cart'']
   \<and> filter claimed_cart_token (classList example_link) = [''cart-link'', ''Cart'']
   \<and> (\<exists>w. get_at (document (inject example_runtime example_layout ''a'' example_link_state)) [0, 0] = Some w
         \<and> classList w = [''site-nav''])"
proof -
  have c: "classList example_link = [''site-nav'', ''cart-link'', ''Cart'']" by code_simp
  have f: "filter (\<lambda>t. \<not> claimed_cart_token t) [''site-nav'', ''cart-link'', ''Cart''] = [''site-nav'']"
    "filter claimed_cart_token [''site-nav'', ''cart-link'', ''Cart''] = [''cart-link'', ''Cart'']"
    by code_simp+
  from inserted_classes_sanitized[OF _ example_link_found(1,2,3), of example_layout]
  obtain w where "get_at (document (inject example_runtime example_layout ''a'' example_link_state)) [0, 0] = Some w"
    "classList w = filter (\<lambda>t. \<not> claimed_cart_token t) (classList example_link)"
    by auto
  then have "\<exists>w. get_at (document (inject example_runtime example_layout ''a'' example_link_state)) [0, 0] = Some w
         \<and> classList w = [''site-nav'']"
    unfolding c f by blast
  with c f(2) show ?thesis by (simp only: simp_thms)
qed



theorem fallback_icon_appended_witness:
  "querySelector iconSelector example_link = None
   \<and> get_at (document (inject example_runtime example_layout ''a'' example_link_state)) [0, 0]
       = Some (appendChild heartIcon (wishlist_clone example_link))
   \<and> console (inject example_runtime example_layout ''a'' example_link_state)
       = [console_warn ''Swym: Could not find an icon (svg, i, img) inside the cloned cart element.'',
          console_log ''Swym: Wishlist icon injected successfully.'',
          console_warn ''Swym Scaler: Could not scale icon, missing referenceIcon or heartSvg.'']"
proof -
  have c: "console example_link_state = []" by (simp add: example_link_state_def)
  note F = fallback_icon_appended[OF _ example_link_found(1,2,3) _ example_link_found(5), of example_layout,
      simplified]
  from F[THEN conjunct2, THEN conjunct1]
    F[THEN conjunct2, THEN conjunct2, THEN conjunct1, unfolded c append_Nil]
    example_link_found(5)
  show ?thesis by blast
qed

theorem inject_idempotent_witness:
  "length (filter (\<lambda>(p, e). getAttribute ''id'' e = Some wishlistButtonId)
             (elems (document (inject example_runtime example_layout ''button'' example_state)))) = 1
   \<and> document (inject example_runtime example_layout ''button''
                 (inject example_runtime example_layout ''button'' example_state))
       = document (inject example_runtime example_layout ''button'' example_state)
   \<and> document (inject example_runtime example_layout ''button'' example_state) \<noteq> document example_state"
proof -
  have n: "document (inject example_runtime example_layout ''button'' example_state) \<noteq> document example_state"
    by code_simp
  note I = inject_idempotent[where rt = example_runtime and render = example_layout
      and cartSelector = "''button''" and s = example_state and cartPath = "[0, 0]"
      and cartElement = example_cart
      and m = "type_selector ''button''"]
  have "length (filter (\<lambda>(p, e). getAttribute ''id'' e = Some wishlistButtonId)
             (elems (document (inject example_runtime example_layout ''button'' example_state)))) = 1"
    using I[THEN conjunct1] example_button_found by simp
  with I[THEN conjunct2, THEN conjunct1] n show ?thesis by blast
qed

text \<open>
  Claim C9. A call of the geometry matcher changes at most one thing in the document: the
  \<open>transform\<close> attribute of the first path inside the new icon. So a reference icon that
  neither contains the new icon nor lies inside it is left as it was, with its whole subtree.
  The call that \<open>inject\<close> makes is of this kind: after an injection the icon of the anchor, one
  place further in its parent, is the element it was before.
\<close>

theorem reference_icon_unchanged:
  "(\<not> prefix rp hp \<and> \<not> prefix hp rp
     \<longrightarrow> get_at (document (after s (matchIconScale rt lay (Some rp) (Some hp) d s))) rp
           = get_at (document s) rp)
   \<and> (document (after s (matchIconScale rt lay (Some rp) (Some hp) d s)) = document s
      \<or> (\<exists>heartEl v. querySelector_at (document s) hp sel_path = Some heartEl
            \<and> document (after s (matchIconScale rt lay (Some rp) (Some hp) d s))
                = map_at heartEl (setAttribute ''transform'' v) (document s)))
   \<and> (cartSelector \<noteq> [] \<and> selector rt cartSelector = Some m
      \<and> document_querySelector m (document s0) = Some (cartPath, cartElement)
      \<and> getElementById wishlistButtonId (document s0) = None \<and> cartPath \<noteq> []
      \<and> querySelector iconSelector cartElement = Some (ip, icon)
     \<longrightarrow> get_at (document (inject rt render cartSelector s0))
           (butlast cartPath @ Suc (last cartPath) # ip) = Some icon)"
proof -
  have 1: "\<not> prefix rp hp \<and> \<not> prefix hp rp
     \<longrightarrow> get_at (document (after s (matchIconScale rt lay (Some rp) (Some hp) d s))) rp
           = get_at (document s) rp"
  proof (intro impI, elim conjE)
    assume "\<not> prefix rp hp" "\<not> prefix hp rp"
    from matchIconScale_frame[OF this, THEN conjunct1]
    show "get_at (document (after s (matchIconScale rt lay (Some rp) (Some hp) d s))) rp
           = get_at (document s) rp" .
  qed
  have 2: "document (after s (matchIconScale rt lay (Some rp) (Some hp) d s)) = document s
      \<or> (\<exists>heartEl v. querySelector_at (document s) hp sel_path = Some heartEl
            \<and> document (after s (matchIconScale rt lay (Some rp) (Some hp) d s))
                = map_at heartEl (setAttribute ''transform'' v) (document s))"
    by (rule matchIconScale_only_transform)
  have 3: "cartSelector \<noteq> [] \<and> selector rt cartSelector = Some m
      \<and> document_querySelector m (document s0) = Some (cartPath, cartElement)
      \<and> getElementById wishlistButtonId (document s0) = None \<and> cartPath \<noteq> []
      \<and> querySelector iconSelector cartElement = Some (ip, icon)
     \<longrightarrow> get_at (document (inject rt render cartSelector s0))
           (butlast cartPath @ Suc (last cartPath) # ip) = Some icon"
    by (intro impI, elim conjE) (rule inject_reference_unchanged)
  show ?thesis by (rule conjI[OF 1 conjI[OF 2 3]])
qed

theorem reference_icon_unchanged_witness:
  "\<not> prefix [0, 1, 0] [0, 0, 0::nat] \<and> \<not> prefix [0, 0, 0] [0, 1, 0::nat]
   \<and> get_at (document (example_scaled ''0 0 24 24'')) [0, 1, 0]
       = get_at (document (example_injected_state ''0 0 24 24'')) [0, 1, 0]
   \<and> document (example_scaled ''0 0 24 24'') \<noteq> document (example_injected_state ''0 0 24 24'')
   \<and> querySelector iconSelector example_cart = Some ([0], example_icon)
   \<and> get_at (document (inject example_runtime example_layout ''button'' example_state)) [0, 1, 0]
       = Some example_icon"
proof -
  have a: "\<not> prefix [0, 1, 0] [0, 0, 0::nat] \<and> \<not> prefix [0, 0, 0] [0, 1, 0::nat]" by simp
  from reference_icon_unchanged[where rp = "[0, 1, 0]" and hp = "[0, 0, 0]"
      and s = "example_injected_state ''0 0 24 24''" and rt = example_runtime
      and lay = "example_layout (example_injected ''0 0 24 24'')" and d = None,
      THEN conjunct1, rule_format, OF a]
  have 1: "get_at (document (example_scaled ''0 0 24 24'')) [0, 1, 0]
       = get_at (document (example_injected_state ''0 0 24 24'')) [0, 1, 0]"
    by (simp only: example_run after.simps)
  have q: "querySelector iconSelector example_cart = Some ([0], example_icon)" by code_simp
  have "get_at (document (inject example_runtime example_layout ''button'' example_state))
      (butlast [0, 0] @ Suc (last [0, 0]) # [0]) = Some example_icon"
    by (rule mp[OF reference_icon_unchanged[where rt = example_runtime and render = example_layout
            and cartSelector = "''button''" and ?s0.0 = example_state and cartPath = "[0, 0]"
            and cartElement = example_cart and ip = "[0]" and icon = example_icon
            and m = "type_selector ''button''",
            THEN conjunct2, THEN conjunct2]])
       (simp add: example_button_found q)
  then have 2: "get_at (document (inject example_runtime example_layout ''button'' example_state)) [0, 1, 0]
       = Some example_icon"
    by simp
  from a 1 example_scaled_changed[of "''0 0 24 24''"] q 2 show ?thesis by blast
qed

end
